theory Spec2Isabelle
  imports Main "HOL-Library.AList"
begin

section \<open>Python string primitives used by the line parser\<close>

text \<open>
  A Python \<^verbatim>\<open>str\<close> is modelled as a \<^typ>\<open>string\<close>; one \<^typ>\<open>char\<close> stands for one code
  point below 256. \<^verbatim>\<open>str.strip()\<close> removes the characters for which \<^verbatim>\<open>str.isspace\<close>
  holds; below 256 these are the code points 9 to 13, 28 to 32, 133 and 160.
\<close>

definition py_isspace :: "char \<Rightarrow> bool" where
  "py_isspace c = ((of_char c :: nat) \<in> {9, 10, 11, 12, 13, 28, 29, 30, 31, 32, 133, 160})"

text \<open>\<^verbatim>\<open>s.strip(chars)\<close>: drop the leading and the trailing characters that satisfy \<open>P\<close>.\<close>

definition strip_chars :: "(char \<Rightarrow> bool) \<Rightarrow> string \<Rightarrow> string" where
  "strip_chars P s = rev (dropWhile P (rev (dropWhile P s)))"

definition py_strip :: "string \<Rightarrow> string" where
  "py_strip s = strip_chars py_isspace s"

definition strip_quotes :: "string \<Rightarrow> string" where
  "strip_quotes s = strip_chars (\<lambda>c. c = CHR 0x22) s"

text \<open>
  \<^verbatim>\<open>s.split(d)\<close> for a one-character delimiter: the result is never empty, and two
  adjacent delimiters enclose an empty field.
\<close>

fun split_on :: "char \<Rightarrow> string \<Rightarrow> string list" where
  "split_on d [] = [[]]"
| "split_on d (c # cs) =
     (if c = d then [] # split_on d cs
      else (case split_on d cs of
              [] \<Rightarrow> [[c]]
            | w # ws \<Rightarrow> (c # w) # ws))"

text \<open>\<^verbatim>\<open>d.join(row)\<close> for a one-character delimiter.\<close>

fun join_with :: "char \<Rightarrow> string list \<Rightarrow> string" where
  "join_with d [] = []"
| "join_with d [x] = x"
| "join_with d (x # y # ys) = x @ d # join_with d (y # ys)"

section \<open>Events, timestamps and the line parser\<close>

text \<open>
  A \<^verbatim>\<open>datetime\<close> read with the format \<^verbatim>\<open>%Y-%m-%d %H:%M:%S\<close> has no fraction of a
  second and no time zone; it is modelled by its number of seconds on the naive time line,
  an \<^typ>\<open>int\<close>. The difference of two of them, \<^verbatim>\<open>(a - b).total_seconds()\<close>, is then
  \<open>a - b\<close>: a whole number of seconds below \<open>2 ^ 39\<close> in magnitude (the years of a
  \<^verbatim>\<open>datetime\<close> run from 1 to 9999), which the float returned holds without rounding.

  \<^verbatim>\<open>datetime.strptime\<close> belongs to the Python library, not to this program. The model
  takes it as the parameter \<open>strptime\<close>: given the text and the format it returns the
  timestamp, or the exception it raises.
\<close>

datatype py_exception = ValueError | OSError

type_synonym timestamp = int

type_synonym strptime_fn = "string \<Rightarrow> string \<Rightarrow> py_exception + timestamp"

definition DATE_FORMAT :: string where
  "DATE_FORMAT = ''%Y-%m-%d %H:%M:%S''"

text \<open>The tuple \<^verbatim>\<open>(login, action, timestamp, session_id)\<close> that the parser returns.\<close>

type_synonym event = "string \<times> string \<times> timestamp \<times> string"

definition ev_login :: "event \<Rightarrow> string" where
  "ev_login ev = (case ev of (login, action, timestamp, session_id) \<Rightarrow> login)"

definition ev_action :: "event \<Rightarrow> string" where
  "ev_action ev = (case ev of (login, action, timestamp, session_id) \<Rightarrow> action)"

definition ev_timestamp :: "event \<Rightarrow> timestamp" where
  "ev_timestamp ev = (case ev of (login, action, timestamp, session_id) \<Rightarrow> timestamp)"

definition ev_session :: "event \<Rightarrow> string" where
  "ev_session ev = (case ev of (login, action, timestamp, session_id) \<Rightarrow> session_id)"

text \<open>
  \<^verbatim>\<open>parts = [part.strip().strip('"') for part in line.strip().split(';')]\<close>
\<close>

definition line_parts :: "string \<Rightarrow> string list" where
  "line_parts line = map (\<lambda>part. strip_quotes (py_strip part)) (split_on CHR '';'' (py_strip line))"

text \<open>
  The body of the \<^verbatim>\<open>try\<close> block of \<^verbatim>\<open>parse_log_line\<close>. \<open>Inl\<close> is an exception that
  leaves the block, \<open>Inr\<close> the value of a \<^verbatim>\<open>return\<close>. Unpacking \<^verbatim>\<open>parts[:4]\<close> into four
  names raises \<^verbatim>\<open>ValueError\<close> unless the slice has four elements.
\<close>

definition parse_log_line_try :: "strptime_fn \<Rightarrow> string \<Rightarrow> py_exception + event option" where
  "parse_log_line_try strptime line =
     (let parts = line_parts line in
      if length parts < 4 then Inr None
      else (case take 4 parts of
              [login, action, timestamp_str, session_id] \<Rightarrow>
                (case strptime timestamp_str DATE_FORMAT of
                   Inl e \<Rightarrow> Inl e
                 | Inr timestamp \<Rightarrow> Inr (Some (login, action, timestamp, session_id)))
            | _ \<Rightarrow> Inl ValueError))"

text \<open>
  The message that the command-line variant prints to \<^verbatim>\<open>sys.stderr\<close> in its handler; it
  is built from the line and the exception. The \<^verbatim>\<open>print\<close> stands in the handler, outside
  any \<^verbatim>\<open>try\<close>: when the stream cannot be written (a closed pipe, say) its exception
  leaves \<^verbatim>\<open>parse_log_line\<close>. What the stream does with a message is the parameter
  \<open>print_stderr\<close>: \<open>None\<close> when it is written, the exception otherwise.
\<close>

datatype warning = ParseWarning string py_exception

type_synonym stderr_fn = "warning \<Rightarrow> py_exception option"

definition stderr_open :: stderr_fn where
  "stderr_open w = None"

definition stderr_closed :: stderr_fn where
  "stderr_closed w = Some OSError"

text \<open>
  \<^verbatim>\<open>parse_log_line\<close> of \<^verbatim>\<open>calculate_work_time.py\<close>: the value returned together with
  what was written to \<^verbatim>\<open>sys.stderr\<close>, or the exception that leaves the function. The
  handler \<^verbatim>\<open>except Exception\<close> catches every exception of the \<^verbatim>\<open>try\<close> block.
\<close>

definition parse_log_line ::
  "stderr_fn \<Rightarrow> strptime_fn \<Rightarrow> string \<Rightarrow> py_exception + (event option \<times> warning list)" where
  "parse_log_line print_stderr strptime line =
     (case parse_log_line_try strptime line of
        Inr r \<Rightarrow> Inr (r, [])
      | Inl e \<Rightarrow>
          (case print_stderr (ParseWarning line e) of
             None \<Rightarrow> Inr (None, [ParseWarning line e])
           | Some x \<Rightarrow> Inl x))"

text \<open>
  \<^verbatim>\<open>parse_log_line\<close> of \<^verbatim>\<open>calculate_work_time_gui.py\<close>: the handler prints nothing,
  so no exception leaves the function.
\<close>

definition parse_log_line_gui :: "strptime_fn \<Rightarrow> string \<Rightarrow> event option" where
  "parse_log_line_gui strptime line =
     (case parse_log_line_try strptime line of
        Inr r \<Rightarrow> r
      | Inl e \<Rightarrow> None)"

section \<open>Python float addition on whole numbers\<close>

text \<open>
  \<^verbatim>\<open>total_time[login] += duration\<close> adds two Python floats. Every value that occurs
  there is a whole number (a difference of timestamps without fractions of a second, or
  a sum of such), so a float is modelled by the \<^typ>\<open>int\<close> it holds, and the addition by
  the exact sum rounded to the nearest float, ties to the even significand: a float has
  53 significant bits, so up to \<open>2 ^ 53\<close> every whole number is a float, and a larger
  one is rounded to a multiple of the power of two that leaves 53 bits. \<open>float_shift n\<close>
  is the exponent of that power for the magnitude \<open>n\<close>. (Overflow to infinity needs a
  magnitude of \<open>2 ^ 1024\<close>; sums of differences of \<^verbatim>\<open>datetime\<close> values, each below
  \<open>2 ^ 39\<close> seconds, stop growing long before.)
\<close>

definition float_limit :: int where
  "float_limit = 9007199254740992"

function float_shift :: "int \<Rightarrow> nat" where
  "float_shift n = (if n < float_limit then 0 else Suc (float_shift (n div 2)))"
  by pat_completeness auto
termination
proof (relation "measure nat")
  show "wf (measure nat)"
    by simp
next
  fix n :: int
  assume "\<not> n < float_limit"
  then have "0 < n"
    by (simp add: float_limit_def)
  then show "(n div 2, n) \<in> measure nat"
    by simp
qed

declare float_shift.simps [simp del]

text \<open>Rounding of a magnitude, and of a signed value by its magnitude.\<close>

definition round_magnitude :: "int \<Rightarrow> int" where
  "round_magnitude n =
     (let u = 2 ^ float_shift n; q = n div u; r = n mod u
      in if 2 * r < u \<or> (2 * r = u \<and> even q) then q * u else (q + 1) * u)"

definition round_float :: "int \<Rightarrow> int" where
  "round_float x = (if x < 0 then - round_magnitude (- x) else round_magnitude x)"

text \<open>\<^verbatim>\<open>a + b\<close> on floats, and the whole numbers that are floats.\<close>

definition float_add :: "int \<Rightarrow> int \<Rightarrow> int" where
  "float_add a b = round_float (a + b)"

definition is_float :: "int \<Rightarrow> bool" where
  "is_float x = (round_float x = x)"

section \<open>The session aggregator\<close>

text \<open>
  The three messages appended to \<^verbatim>\<open>missing_start_logs\<close>, each an f-string over a login,
  a timestamp and a session id; the model keeps the three values and the kind of message.
\<close>

datatype diagnostic =
    StopOtherUser string timestamp string
  | StopWithoutStart string timestamp string
  | StartWithoutStop string timestamp string

text \<open>
  The local variables of \<^verbatim>\<open>calculate_work_time\<close>. A Python \<^verbatim>\<open>dict\<close> keeps its keys in
  insertion order, assignment to a present key keeps its place, so both dictionaries are
  association lists under \<^const>\<open>AList.update\<close> and \<^const>\<open>AList.delete\<close>.
\<close>

record agg_state =
  start_times :: "(string \<times> (string \<times> timestamp)) list"
  total_time :: "(string \<times> int) list"
  missing_start_logs :: "diagnostic list"

definition init_state :: agg_state where
  "init_state = \<lparr>start_times = [], total_time = [], missing_start_logs = []\<rparr>"

text \<open>Truth value of \<^verbatim>\<open>target_login\<close>: \<^verbatim>\<open>None\<close> and the empty string are false.\<close>

definition truthy :: "string option \<Rightarrow> bool" where
  "truthy target_login = (case target_login of None \<Rightarrow> False | Some s \<Rightarrow> s \<noteq> [])"

text \<open>\<^verbatim>\<open>target_login and login != target_login\<close>\<close>

definition filtered_out :: "string option \<Rightarrow> string \<Rightarrow> bool" where
  "filtered_out target_login login = (truthy target_login \<and> Some login \<noteq> target_login)"

text \<open>Reading \<^verbatim>\<open>total_time[login]\<close> of the \<^verbatim>\<open>defaultdict(lambda: 0)\<close>.\<close>

definition get_total :: "(string \<times> int) list \<Rightarrow> string \<Rightarrow> int" where
  "get_total totals login = (case map_of totals login of None \<Rightarrow> 0 | Some v \<Rightarrow> v)"

text \<open>The body of the loop from the filter on, for one parsed event.\<close>

definition process_event :: "string option \<Rightarrow> agg_state \<Rightarrow> event \<Rightarrow> agg_state" where
  "process_event target_login st ev =
     (case ev of (login, action, timestamp, session_id) \<Rightarrow>
        if filtered_out target_login login then st
        else if action = ''Start'' then
          st\<lparr>start_times := AList.update session_id (login, timestamp) (start_times st)\<rparr>
        else if action = ''Stop'' then
          (case map_of (start_times st) session_id of
             Some (start_login, start_time) \<Rightarrow>
               if start_login = login then
                 st\<lparr>total_time :=
                      AList.update login
                        (float_add (get_total (total_time st) login) (timestamp - start_time))
                        (total_time st),
                    start_times := AList.delete session_id (start_times st)\<rparr>
               else
                 st\<lparr>missing_start_logs :=
                      missing_start_logs st @ [StopOtherUser login timestamp session_id]\<rparr>
           | None \<Rightarrow>
               st\<lparr>missing_start_logs :=
                    missing_start_logs st @ [StopWithoutStart login timestamp session_id]\<rparr>)
        else st)"

text \<open>
  The whole body of the loop, for one row of \<^verbatim>\<open>csv.reader\<close>. A returned tuple is always
  true, so \<^verbatim>\<open>not parsed\<close> holds for \<^verbatim>\<open>None\<close> only. The loop has the same text in both
  files; \<open>process_row\<close> is the one of \<^verbatim>\<open>calculate_work_time_gui.py\<close>, whose parser always
  returns, and \<open>process_row_cli\<close> the one of \<^verbatim>\<open>calculate_work_time.py\<close>, where the
  exception of a failed write to \<^verbatim>\<open>sys.stderr\<close> leaves the loop.
\<close>

definition process_row :: "strptime_fn \<Rightarrow> string option \<Rightarrow> agg_state \<Rightarrow> string list \<Rightarrow> agg_state" where
  "process_row strptime target_login st row =
     (if length row < 4 then st
      else (case parse_log_line_gui strptime (join_with CHR '';'' row) of
              None \<Rightarrow> st
            | Some ev \<Rightarrow> process_event target_login st ev))"

definition process_row_cli ::
  "stderr_fn \<Rightarrow> strptime_fn \<Rightarrow> string option \<Rightarrow> agg_state \<Rightarrow> string list
     \<Rightarrow> py_exception + agg_state" where
  "process_row_cli print_stderr strptime target_login st row =
     (if length row < 4 then Inr st
      else (case parse_log_line print_stderr strptime (join_with CHR '';'' row) of
              Inl x \<Rightarrow> Inl x
            | Inr (parsed, written) \<Rightarrow>
                (case parsed of
                   None \<Rightarrow> Inr st
                 | Some ev \<Rightarrow> Inr (process_event target_login st ev))))"

text \<open>The loop after the pass: one message for each session still open, in dictionary order.\<close>

definition unterminated :: "string option \<Rightarrow> (string \<times> (string \<times> timestamp)) list \<Rightarrow> diagnostic list" where
  "unterminated target_login tbl =
     map (\<lambda>(session_id, (login, start_time)). StartWithoutStop login start_time session_id)
       (filter (\<lambda>(session_id, (login, start_time)). \<not> truthy target_login \<or> Some login = target_login) tbl)"

text \<open>What the function returns from the state the pass has reached.\<close>

definition finish :: "string option \<Rightarrow> agg_state \<Rightarrow> (string \<times> int) list \<times> diagnostic list" where
  "finish target_login st =
     (total_time st, missing_start_logs st @ unterminated target_login (start_times st))"

text \<open>
  \<^verbatim>\<open>calculate_work_time\<close>, over the rows that \<^verbatim>\<open>csv.reader\<close> yields for the file (the
  reader is library code; opening the file may raise, which is outside the pass).
  \<open>pass_state\<close> is the state when the \<^verbatim>\<open>for\<close> loop over the rows has ended.
  \<open>calculate_work_time\<close> is the function of \<^verbatim>\<open>calculate_work_time_gui.py\<close>; the one of
  \<^verbatim>\<open>calculate_work_time.py\<close>, \<open>calculate_work_time_cli\<close> below, has the same text and
  returns the same value whenever it returns.
\<close>

definition pass_state :: "strptime_fn \<Rightarrow> string list list \<Rightarrow> string option \<Rightarrow> agg_state" where
  "pass_state strptime rows target_login =
     foldl (process_row strptime target_login) init_state rows"

definition calculate_work_time ::
  "strptime_fn \<Rightarrow> string list list \<Rightarrow> string option \<Rightarrow> (string \<times> int) list \<times> diagnostic list" where
  "calculate_work_time strptime rows target_login =
     finish target_login (pass_state strptime rows target_login)"

fun pass_rows_cli ::
  "stderr_fn \<Rightarrow> strptime_fn \<Rightarrow> string option \<Rightarrow> agg_state \<Rightarrow> string list list
     \<Rightarrow> py_exception + agg_state" where
  "pass_rows_cli print_stderr strptime target_login st [] = Inr st"
| "pass_rows_cli print_stderr strptime target_login st (row # rows) =
     (case process_row_cli print_stderr strptime target_login st row of
        Inl x \<Rightarrow> Inl x
      | Inr st' \<Rightarrow> pass_rows_cli print_stderr strptime target_login st' rows)"

definition calculate_work_time_cli ::
  "stderr_fn \<Rightarrow> strptime_fn \<Rightarrow> string list list \<Rightarrow> string option
     \<Rightarrow> py_exception + ((string \<times> int) list \<times> diagnostic list)" where
  "calculate_work_time_cli print_stderr strptime rows target_login =
     (case pass_rows_cli print_stderr strptime target_login init_state rows of
        Inl x \<Rightarrow> Inl x
      | Inr st \<Rightarrow> Inr (finish target_login st))"

text \<open>
  The pass seen on parsed events: the event of a row (if it has one), the events of the
  rows in file order, the fold of the loop body over events, and the function on events.
\<close>

definition row_event :: "strptime_fn \<Rightarrow> string list \<Rightarrow> event option" where
  "row_event strptime row =
     (if length row < 4 then None else parse_log_line_gui strptime (join_with CHR '';'' row))"

definition events_of :: "strptime_fn \<Rightarrow> string list list \<Rightarrow> event list" where
  "events_of strptime rows = List.map_filter (row_event strptime) rows"

definition run_events :: "string option \<Rightarrow> agg_state \<Rightarrow> event list \<Rightarrow> agg_state" where
  "run_events target_login st evs = foldl (process_event target_login) st evs"

definition aggregate :: "string option \<Rightarrow> event list \<Rightarrow> (string \<times> int) list \<times> diagnostic list" where
  "aggregate target_login evs = finish target_login (run_events target_login init_state evs)"

text \<open>
  A table of \<^verbatim>\<open>datetime.strptime\<close> for the timestamps of the examples, in seconds
  since 2024-01-01 00:00:00; every other text raises. The first and the last second that
  a \<^verbatim>\<open>datetime\<close> can hold are 315537897599 seconds apart. The text
  \<^verbatim>\<open>2024-1-1 9:0:0\<close> is in the table because \<^verbatim>\<open>strptime\<close> reads a month, day, hour,
  minute or second of one digit: for it, it returns 2024-01-01 09:00:00.
\<close>

definition strptime_sample :: strptime_fn where
  "strptime_sample s fmt =
     (if fmt = DATE_FORMAT \<and> s = ''2024-01-01 09:00:00'' then Inr 32400
      else if fmt = DATE_FORMAT \<and> s = ''2024-01-01 10:00:00'' then Inr 36000
      else if fmt = DATE_FORMAT \<and> s = ''2024-01-01 17:00:00'' then Inr 61200
      else if fmt = DATE_FORMAT \<and> s = ''2024-1-1 9:0:0'' then Inr 32400
      else if fmt = DATE_FORMAT \<and> s = ''0001-01-01 00:00:00'' then Inr (- 63839664000)
      else if fmt = DATE_FORMAT \<and> s = ''5387-01-24 15:32:18'' then Inr 106128113538
      else if fmt = DATE_FORMAT \<and> s = ''9999-12-31 23:59:59'' then Inr 251698233599
      else Inl ValueError)"

text \<open>
  A long cleanly matched input: 28545 sessions of one login from 0001-01-01 00:00:00 to
  9999-12-31 23:59:59, and one more from 0001-01-01 00:00:00 to 5387-01-24 15:32:18. The
  durations sum up to \<open>28545 * 315537897599 + 169967777538 = 2 ^ 53 + 1\<close> seconds.
\<close>

definition long_rows :: "string list list" where
  "long_rows =
     concat (replicate 28545
       [[''alice'', ''Start'', ''0001-01-01 00:00:00'', ''s1''],
        [''alice'', ''Stop'', ''9999-12-31 23:59:59'', ''s1'']])
     @ [[''alice'', ''Start'', ''0001-01-01 00:00:00'', ''s1''],
        [''alice'', ''Stop'', ''5387-01-24 15:32:18'', ''s1'']]"

section \<open>Properties of event sequences\<close>

text \<open>
  The pattern \<^verbatim>\<open>YYYY-MM-DD HH:MM:SS\<close> of the specification, read letter by letter: a
  text of 19 characters with a digit wherever the pattern has a letter and the pattern's
  own character elsewhere.
\<close>

definition is_digit :: "char \<Rightarrow> bool" where
  "is_digit c = (c \<in> set ''0123456789'')"

definition matches_date_pattern :: "string \<Rightarrow> bool" where
  "matches_date_pattern s =
     list_all2 (\<lambda>p c. if p \<in> set ''YMDHS'' then is_digit c else c = p)
       ''YYYY-MM-DD HH:MM:SS'' s"

text \<open>
  No Stop is stamped before a Start that precedes it in the sequence and has the same
  session id and login.
\<close>

fun stops_not_before_starts :: "event list \<Rightarrow> bool" where
  "stops_not_before_starts [] = True"
| "stops_not_before_starts (e # es) =
     (list_all (\<lambda>e'. ev_action e = ''Start'' \<and> ev_action e' = ''Stop''
                     \<and> ev_session e' = ev_session e \<and> ev_login e' = ev_login e
                   \<longrightarrow> ev_timestamp e \<le> ev_timestamp e') es
      \<and> stops_not_before_starts es)"

text \<open>
  The same for a state in the middle of the pass and the events still to come: no coming
  Stop is stamped before the open session it would match, and every total is a
  float that is at least 0.
\<close>

definition chrono_inv :: "agg_state \<Rightarrow> event list \<Rightarrow> bool" where
  "chrono_inv st es \<longleftrightarrow>
     (\<forall>entry \<in> set (start_times st). \<forall>e' \<in> set es.
        ev_action e' = ''Stop'' \<and> ev_session e' = fst entry \<and> ev_login e' = fst (snd entry)
          \<longrightarrow> snd (snd entry) \<le> ev_timestamp e')
     \<and> stops_not_before_starts es
     \<and> (\<forall>login. 0 \<le> get_total (total_time st) login
                  \<and> is_float (get_total (total_time st) login))"

text \<open>
  Cleanly matched input, in the words of the specification: the events of each session
  id, in file order, are Start/Stop pairs, a Start and then a Stop of the same login.
  The expected total of a login is the sum of \<open>stop - start\<close> over the pairs whose Stop
  carries that login, over all session ids.
\<close>

definition session_events :: "event list \<Rightarrow> string \<Rightarrow> event list" where
  "session_events evs session_id = filter (\<lambda>e. ev_session e = session_id) evs"

fun paired :: "event list \<Rightarrow> bool" where
  "paired [] = True"
| "paired [a] = False"
| "paired (a # b # rest) =
     (ev_action a = ''Start'' \<and> ev_action b = ''Stop'' \<and> ev_login a = ev_login b \<and> paired rest)"

definition cleanly_matched :: "event list \<Rightarrow> bool" where
  "cleanly_matched evs =
     list_all (\<lambda>session_id. paired (session_events evs session_id)) (remdups (map ev_session evs))"

fun pair_seconds :: "string \<Rightarrow> event list \<Rightarrow> int" where
  "pair_seconds login (a # b # rest) =
     (if ev_login b = login then ev_timestamp b - ev_timestamp a else 0) + pair_seconds login rest"
| "pair_seconds login [a] = 0"
| "pair_seconds login [] = 0"

definition expected_total :: "event list \<Rightarrow> string \<Rightarrow> int" where
  "expected_total evs login =
     sum_list (map (\<lambda>session_id. pair_seconds login (session_events evs session_id))
       (remdups (map ev_session evs)))"

text \<open>
  The size of a login's pairs: the sum of \<open>\<bar>stop - start\<bar>\<close> over the pairs whose Stop
  carries that login. While it is at most \<open>2 ^ 53\<close>, every sum of some of the login's
  durations is a whole number that a float holds.
\<close>

fun pair_magnitude :: "string \<Rightarrow> event list \<Rightarrow> int" where
  "pair_magnitude login (a # b # rest) =
     (if ev_login b = login then \<bar>ev_timestamp b - ev_timestamp a\<bar> else 0)
     + pair_magnitude login rest"
| "pair_magnitude login [a] = 0"
| "pair_magnitude login [] = 0"

definition expected_magnitude :: "event list \<Rightarrow> string \<Rightarrow> int" where
  "expected_magnitude evs login =
     sum_list (map (\<lambda>session_id. pair_magnitude login (session_events evs session_id))
       (remdups (map ev_session evs)))"

text \<open>
  In the middle of the pass, the events of a session id that are still unmatched: the
  Start held in the open-session table, if there is one, and then the events to come.
\<close>

definition open_start :: "agg_state \<Rightarrow> string \<Rightarrow> event list" where
  "open_start st session_id =
     (case map_of (start_times st) session_id of
        None \<Rightarrow> []
      | Some (login, start_time) \<Rightarrow> [(login, ''Start'', start_time, session_id)])"

definition pending :: "agg_state \<Rightarrow> event list \<Rightarrow> string \<Rightarrow> event list" where
  "pending st es session_id = open_start st session_id @ session_events es session_id"

section \<open>Helper facts\<close>

subsection \<open>Float rounding\<close>

lemma float_limit_half: "\<exists>h. float_limit = 2 * h \<and> 0 < h"
proof -
  have "float_limit = 2 * 4503599627370496 \<and> (0::int) < 4503599627370496"
    by (simp add: float_limit_def)
  then show ?thesis by blast
qed

lemma float_limit_pos: "0 < float_limit"
  by (simp add: float_limit_def)

lemma float_shift_small: "n < float_limit \<Longrightarrow> float_shift n = 0"
  by (simp add: float_shift.simps)

lemma float_shift_large: "\<not> n < float_limit \<Longrightarrow> float_shift n = Suc (float_shift (n div 2))"
  by (subst float_shift.simps) simp

lemma div_power_Suc: "(n::int) div 2 ^ Suc k = n div 2 div 2 ^ k"
  by (simp add: zdiv_zmult2_eq)

lemma int_div_power_le: "0 \<le> (m::int) \<Longrightarrow> m div 2 ^ k \<le> m"
  using zdiv_mono2 [of m 1 "2 ^ k"] by simp

lemma float_shift_bounds:
  "n div 2 ^ float_shift n < float_limit
   \<and> (0 < float_shift n \<longrightarrow> float_limit \<le> 2 * (n div 2 ^ float_shift n))"
proof (induction n rule: float_shift.induct)
  case (1 n)
  show ?case
  proof (cases "n < float_limit")
    case True
    then show ?thesis by (simp add: float_shift_small)
  next
    case False
    have sh: "float_shift n = Suc (float_shift (n div 2))"
      using False by (rule float_shift_large)
    have ih: "n div 2 div 2 ^ float_shift (n div 2) < float_limit
      \<and> (0 < float_shift (n div 2) \<longrightarrow>
           float_limit \<le> 2 * (n div 2 div 2 ^ float_shift (n div 2)))"
      using "1.IH" False by simp
    show ?thesis
    proof (cases "float_shift (n div 2)")
      case 0
      obtain h where h: "float_limit = 2 * h"
        using float_limit_half by blast
      have "2 * h \<le> n"
        using False h by simp
      then have "h \<le> n div 2"
        by simp
      then have "float_limit \<le> 2 * (n div 2)"
        using h by simp
      then show ?thesis
        using ih 0 unfolding sh div_power_Suc by simp
    next
      case (Suc k)
      then show ?thesis
        using ih unfolding sh div_power_Suc by simp
    qed
  qed
qed

lemma float_shift_unique:
  "0 \<le> n \<Longrightarrow> float_limit \<le> 2 * (n div 2 ^ k) \<Longrightarrow> n div 2 ^ k < float_limit \<Longrightarrow> 0 < k \<Longrightarrow>
   float_shift n = k"
proof (induction k arbitrary: n)
  case 0
  then show ?case by simp
next
  case (Suc k)
  have half: "0 \<le> n div 2"
    using Suc.prems(1) by simp
  have le: "n div 2 div 2 ^ k \<le> n div 2"
    using half by (rule int_div_power_le)
  have big: "\<not> n < float_limit"
  proof
    assume "n < float_limit"
    then have "2 * (n div 2) < float_limit"
      by simp
    then show False
      using Suc.prems(2) le unfolding div_power_Suc by simp
  qed
  show ?case
  proof (cases k)
    case 0
    then have "n div 2 < float_limit"
      using Suc.prems(3) by simp
    then show ?thesis
      using big 0 by (simp add: float_shift_large float_shift_small)
  next
    case (Suc j)
    then have "float_shift (n div 2) = k"
      using Suc.IH [of "n div 2"] half Suc.prems(2,3) unfolding div_power_Suc by simp
    then show ?thesis
      using big by (simp add: float_shift_large)
  qed
qed

lemma round_magnitude_small: "n < float_limit \<Longrightarrow> round_magnitude n = n"
  by (simp add: round_magnitude_def float_shift_small)

lemma round_magnitude_limit: "round_magnitude float_limit = float_limit"
proof -
  obtain h where h: "float_limit = 2 * h" "0 < h"
    using float_limit_half by blast
  have d: "float_limit div 2 ^ Suc 0 = h" and m: "float_limit mod 2 ^ Suc 0 = 0"
    by (simp_all add: h(1))
  have "float_shift float_limit = Suc 0"
  proof (rule float_shift_unique)
    show "0 \<le> float_limit"
      using float_limit_pos by simp
    show "float_limit \<le> 2 * (float_limit div 2 ^ Suc 0)"
      unfolding d by (simp add: h(1))
    show "float_limit div 2 ^ Suc 0 < float_limit"
      unfolding d using h(2) by (simp add: h(1))
  qed simp
  then have "round_magnitude float_limit = h * 2"
    using d m by (simp add: round_magnitude_def)
  then show ?thesis
    by (simp add: h(1))
qed

lemma round_magnitude_exact: "n \<le> float_limit \<Longrightarrow> round_magnitude n = n"
  using round_magnitude_small [of n] round_magnitude_limit by (cases "n = float_limit") simp_all

lemma round_magnitude_cases:
  "round_magnitude n = (n div 2 ^ float_shift n) * 2 ^ float_shift n
   \<or> round_magnitude n = (n div 2 ^ float_shift n + 1) * 2 ^ float_shift n"
  by (simp add: round_magnitude_def Let_def)

lemma round_magnitude_dvd: "2 ^ float_shift n dvd round_magnitude n"
  using round_magnitude_cases [of n] by (metis dvd_triv_right)

lemma round_magnitude_lower: "(n div 2 ^ float_shift n) * 2 ^ float_shift n \<le> round_magnitude n"
proof -
  have "(n div 2 ^ float_shift n) * 2 ^ float_shift n
      \<le> (n div 2 ^ float_shift n + 1) * 2 ^ float_shift n"
    by (rule mult_right_mono) simp_all
  then show ?thesis
    using round_magnitude_cases [of n] by auto
qed

lemma round_magnitude_ge:
  assumes "round_magnitude a = a" and "a \<le> x"
  shows "a \<le> round_magnitude x"
proof (cases "float_shift x")
  case 0
  then have "x < float_limit"
    using float_shift_bounds [of x] by simp
  then show ?thesis
    using assms(2) by (simp add: round_magnitude_small)
next
  case (Suc j)
  let ?u = "(2::int) ^ Suc j"
  let ?q = "x div ?u"
  have upos: "0 < ?u"
    by simp
  have low: "?q * ?u \<le> round_magnitude x"
    using round_magnitude_lower [of x] Suc by simp
  have big: "float_limit \<le> 2 * ?q"
    using float_shift_bounds [of x] Suc by simp
  show ?thesis
  proof (cases "Suc j \<le> float_shift a")
    case True
    have "?u dvd 2 ^ float_shift a"
      using True by (rule le_imp_power_dvd)
    moreover have "2 ^ float_shift a dvd a"
      using round_magnitude_dvd [of a] assms(1) by simp
    ultimately have "?u dvd a"
      by (rule dvd_trans)
    then obtain c where c: "a = c * ?u"
      by (auto simp: dvd_def mult.commute)
    have "(c * ?u) div ?u \<le> x div ?u"
      using assms(2) upos unfolding c by (rule zdiv_mono1)
    then have "c \<le> ?q"
      by simp
    then have "c * ?u \<le> ?q * ?u"
      using upos by (intro mult_right_mono) simp_all
    then show ?thesis
      using low unfolding c by (rule order_trans)
  next
    case False
    then have ka: "float_shift a \<le> j"
      by simp
    let ?ua = "(2::int) ^ float_shift a"
    have uapos: "0 < ?ua"
      by simp
    have "a div ?ua + 1 \<le> float_limit"
      using float_shift_bounds [of a] by simp
    then have le: "(a div ?ua + 1) * ?ua \<le> float_limit * ?ua"
      using uapos by (intro mult_right_mono) simp_all
    have e1: "(a div ?ua + 1) * ?ua = (a div ?ua) * ?ua + ?ua"
      by (simp add: algebra_simps)
    have dec: "a = (a div ?ua) * ?ua + a mod ?ua"
      by (rule div_mult_mod_eq [symmetric])
    have modb: "a mod ?ua < ?ua"
      using uapos by (rule pos_mod_bound)
    have a1: "a < float_limit * ?ua"
      using le e1 dec modb by linarith
    have "?ua \<le> 2 ^ j"
      using ka by (simp add: power_increasing)
    then have a2: "float_limit * ?ua \<le> float_limit * 2 ^ j"
      using float_limit_pos by (intro mult_left_mono) simp_all
    have a3: "float_limit * 2 ^ j \<le> (2 * ?q) * 2 ^ j"
      using big by (intro mult_right_mono) simp_all
    have "(2 * ?q) * 2 ^ j = ?q * ?u"
      by simp
    then have "a \<le> ?q * ?u"
      using a1 a2 a3 by linarith
    then show ?thesis
      using low by (rule order_trans)
  qed
qed

lemma round_magnitude_idem:
  assumes "0 \<le> n"
  shows "round_magnitude (round_magnitude n) = round_magnitude n"
proof (cases "float_shift n")
  case 0
  then have "n < float_limit"
    using float_shift_bounds [of n] by simp
  then show ?thesis
    by (simp add: round_magnitude_small)
next
  case (Suc j)
  let ?u = "(2::int) ^ Suc j"
  let ?q = "n div ?u"
  have big: "float_limit \<le> 2 * ?q" and small: "?q < float_limit"
    using float_shift_bounds [of n] Suc by simp_all
  have fixed: "round_magnitude (q' * ?u) = q' * ?u"
    if "float_limit \<le> 2 * q'" and "q' \<le> float_limit" for q'
  proof (cases "q' < float_limit")
    case True
    have q'pos: "0 \<le> q'"
      using that(1) float_limit_pos by simp
    have dm: "q' * ?u div ?u = q'" "q' * ?u mod ?u = 0"
      by simp_all
    have "float_shift (q' * ?u) = Suc j"
    proof (rule float_shift_unique)
      show "0 \<le> q' * ?u"
        using q'pos by simp
      show "float_limit \<le> 2 * (q' * ?u div ?u)"
        unfolding dm using that(1) .
      show "q' * ?u div ?u < float_limit"
        unfolding dm using True .
    qed simp
    then show ?thesis
      using dm by (simp add: round_magnitude_def)
  next
    case False
    then have q': "q' = float_limit"
      using that(2) by simp
    obtain h where h: "float_limit = 2 * h" "0 < h"
      using float_limit_half by blast
    let ?w = "(2::int) ^ Suc (Suc j)"
    have v: "q' * ?u = h * ?w"
      unfolding q' h(1) by simp
    have dm: "h * ?w div ?w = h" "h * ?w mod ?w = 0"
      by simp_all
    have "float_shift (h * ?w) = Suc (Suc j)"
    proof (rule float_shift_unique)
      show "0 \<le> h * ?w"
        using h(2) by simp
      show "float_limit \<le> 2 * (h * ?w div ?w)"
        unfolding dm by (simp add: h(1))
      show "h * ?w div ?w < float_limit"
        unfolding dm using h(2) by (simp add: h(1))
    qed simp
    then have "round_magnitude (h * ?w) = h * ?w"
      using dm by (simp add: round_magnitude_def)
    then show ?thesis
      unfolding v .
  qed
  have "round_magnitude n = ?q * ?u \<or> round_magnitude n = (?q + 1) * ?u"
    using round_magnitude_cases [of n] Suc by simp
  moreover have "round_magnitude (?q * ?u) = ?q * ?u"
    using big small by (intro fixed) simp_all
  moreover have "round_magnitude ((?q + 1) * ?u) = (?q + 1) * ?u"
    using big small by (intro fixed) simp_all
  ultimately show ?thesis
    by auto
qed

lemma round_magnitude_nonneg: "0 \<le> n \<Longrightarrow> 0 \<le> round_magnitude n"
proof -
  assume n: "0 \<le> n"
  have "0 \<le> (n div 2 ^ float_shift n) * 2 ^ float_shift n"
    using n by (simp add: pos_imp_zdiv_nonneg_iff)
  then show ?thesis
    using round_magnitude_lower [of n] by simp
qed

lemma round_float_exact: "\<bar>x\<bar> \<le> float_limit \<Longrightarrow> round_float x = x"
  by (simp add: round_float_def round_magnitude_exact)

lemma round_float_idem: "round_float (round_float x) = round_float x"
proof (cases "x < 0")
  case False
  then have "0 \<le> round_magnitude x"
    by (simp add: round_magnitude_nonneg)
  then show ?thesis
    using False by (simp add: round_float_def round_magnitude_idem)
next
  case True
  then have nn: "0 \<le> round_magnitude (- x)"
    by (simp add: round_magnitude_nonneg)
  show ?thesis
  proof (cases "round_magnitude (- x) = 0")
    case True
    have "round_magnitude 0 = 0"
      using float_limit_pos by (simp add: round_magnitude_small)
    then show ?thesis
      using \<open>x < 0\<close> True by (simp add: round_float_def)
  next
    case False
    then have "0 < round_magnitude (- x)"
      using nn by simp
    then show ?thesis
      using \<open>x < 0\<close> by (simp add: round_float_def round_magnitude_idem)
  qed
qed

lemma float_add_nonneg:
  assumes "is_float a" and "0 \<le> a" and "0 \<le> d"
  shows "a \<le> float_add a d \<and> 0 \<le> float_add a d \<and> is_float (float_add a d)"
proof -
  have fx: "round_magnitude a = a"
    using assms(1,2) by (simp add: is_float_def round_float_def)
  have "a \<le> round_magnitude (a + d)"
    using fx assms(3) by (intro round_magnitude_ge) simp_all
  then have "a \<le> float_add a d"
    using assms(2,3) by (simp add: float_add_def round_float_def)
  then show ?thesis
    using assms(2) by (simp add: float_add_def is_float_def round_float_idem)
qed

lemma float_add_exact: "\<bar>a + d\<bar> \<le> float_limit \<Longrightarrow> float_add a d = a + d"
  by (simp add: float_add_def round_float_exact)

lemma is_float_zero: "is_float 0"
  using float_limit_pos by (simp add: is_float_def round_float_def round_magnitude_small)

subsection \<open>The pass over rows and over events\<close>

lemma process_row_event:
  "process_row strptime target_login st row =
     (case row_event strptime row of None \<Rightarrow> st | Some ev \<Rightarrow> process_event target_login st ev)"
  by (simp add: process_row_def row_event_def)

lemma foldl_rows_events:
  "foldl (process_row strptime target_login) st rows =
     run_events target_login st (events_of strptime rows)"
proof (induction rows arbitrary: st)
  case Nil
  show ?case by (simp add: run_events_def events_of_def)
next
  case (Cons row rows)
  show ?case
  proof (cases "row_event strptime row")
    case None
    then show ?thesis
      using Cons.IH [of st]
      by (simp add: process_row_event run_events_def events_of_def)
  next
    case (Some ev)
    then show ?thesis
      using Cons.IH [of "process_event target_login st ev"]
      by (simp add: process_row_event run_events_def events_of_def)
  qed
qed

lemma pass_state_events:
  "pass_state strptime rows target_login =
     run_events target_login init_state (events_of strptime rows)"
  by (simp add: pass_state_def foldl_rows_events)

lemma calculate_work_time_events:
  "calculate_work_time strptime rows target_login =
     aggregate target_login (events_of strptime rows)"
  by (simp add: calculate_work_time_def aggregate_def pass_state_events)

lemma run_events_Nil: "run_events target_login st [] = st"
  by (simp add: run_events_def)

lemma run_events_Cons:
  "run_events target_login st (ev # evs) =
     run_events target_login (process_event target_login st ev) evs"
  by (simp add: run_events_def)

lemma run_events_snoc:
  "run_events target_login st (evs @ [ev]) =
     process_event target_login (run_events target_login st evs) ev"
  by (simp add: run_events_def)

lemma get_total_update:
  "get_total (AList.update k v totals) l = (if l = k then v else get_total totals l)"
  by (simp add: get_total_def update_conv')

lemma take_four:
  "4 \<le> length xs \<Longrightarrow> take 4 xs = [xs ! 0, xs ! 1, xs ! 2, xs ! 3]"
proof -
  assume "4 \<le> length xs"
  then obtain a b c d rest where "xs = a # b # c # d # rest"
    by (auto simp: numeral_eq_Suc Suc_le_length_iff)
  then show ?thesis by (simp add: numeral_eq_Suc)
qed

lemma parse_log_line_try_short:
  "length (line_parts line) < 4 \<Longrightarrow> parse_log_line_try strptime line = Inr None"
  by (simp add: parse_log_line_try_def)

lemma parse_log_line_try_long:
  "4 \<le> length (line_parts line) \<Longrightarrow>
   parse_log_line_try strptime line =
     (case strptime (line_parts line ! 2) DATE_FORMAT of
        Inl e \<Rightarrow> Inl e
      | Inr timestamp \<Rightarrow>
          Inr (Some (line_parts line ! 0, line_parts line ! 1, timestamp, line_parts line ! 3)))"
  by (simp add: parse_log_line_try_def Let_def take_four split: sum.splits)

lemma process_event_distinct:
  "distinct (map fst (start_times st)) \<Longrightarrow>
   distinct (map fst (start_times (process_event target_login st ev)))"
  by (cases ev) (auto simp: process_event_def distinct_update distinct_delete split: option.splits)

lemma process_event_no_unterminated:
  "(\<forall>l t s. StartWithoutStop l t s \<notin> set (missing_start_logs st)) \<Longrightarrow>
   StartWithoutStop l t s \<notin> set (missing_start_logs (process_event target_login st ev))"
  by (cases ev) (auto simp: process_event_def split: option.splits)

lemma run_events_distinct:
  "distinct (map fst (start_times st)) \<Longrightarrow>
   distinct (map fst (start_times (run_events target_login st evs)))"
  by (induction evs arbitrary: st) (simp_all add: run_events_Nil run_events_Cons process_event_distinct)

lemma run_events_no_unterminated:
  "(\<forall>l t s. StartWithoutStop l t s \<notin> set (missing_start_logs st)) \<Longrightarrow>
   StartWithoutStop l t s \<notin> set (missing_start_logs (run_events target_login st evs))"
proof (induction evs arbitrary: st)
  case Nil
  then show ?case by (simp add: run_events_Nil)
next
  case (Cons ev evs)
  have "\<forall>l t s. StartWithoutStop l t s \<notin> set (missing_start_logs (process_event target_login st ev))"
    using Cons.prems process_event_no_unterminated by blast
  then show ?case
    using Cons.IH by (simp add: run_events_Cons)
qed

lemma pass_state_distinct:
  "distinct (map fst (start_times (pass_state strptime rows target_login)))"
  by (simp add: pass_state_events run_events_distinct init_state_def)

lemma pass_state_no_unterminated:
  "StartWithoutStop l t s \<notin> set (missing_start_logs (pass_state strptime rows target_login))"
  by (simp add: pass_state_events run_events_no_unterminated init_state_def)

lemma distinct_unterminated:
  "distinct (map fst tbl) \<Longrightarrow> distinct (unterminated target_login tbl)"
proof -
  assume d: "distinct (map fst tbl)"
  then have "distinct tbl" by (simp add: distinct_map)
  then have "distinct (filter (\<lambda>(session_id, (login, start_time)).
      \<not> truthy target_login \<or> Some login = target_login) tbl)"
    by simp
  moreover have "inj (\<lambda>(session_id, (login, start_time)). StartWithoutStop login start_time session_id)"
    by (auto simp: inj_on_def)
  ultimately show ?thesis
    unfolding unterminated_def
    by (simp add: distinct_map inj_on_subset [OF _ subset_UNIV])
qed

lemma set_unterminated:
  "StartWithoutStop l t s \<in> set (unterminated target_login tbl) \<longleftrightarrow>
     (s, (l, t)) \<in> set tbl \<and> (\<not> truthy target_login \<or> Some l = target_login)"
  by (force simp: unterminated_def)

lemma count_list_distinct_member:
  "distinct xs \<Longrightarrow> x \<in> set xs \<Longrightarrow> count_list xs x = 1"
  by (induction xs) auto

lemma set_update_subset: "set (AList.update k v al) \<subseteq> insert (k, v) (set al)"
  by (induct al) auto

lemma set_delete_subset: "set (AList.delete k al) \<subseteq> set al"
  by (induct al) auto

lemma process_event_skip:
  "target \<noteq> [] \<Longrightarrow> ev_login ev \<noteq> target \<Longrightarrow> process_event (Some target) st ev = st"
  by (cases ev) (simp add: process_event_def filtered_out_def truthy_def ev_login_def)

lemma process_event_keep:
  "ev_login ev = target \<Longrightarrow> process_event (Some target) st ev = process_event None st ev"
  by (cases ev) (simp add: process_event_def filtered_out_def truthy_def ev_login_def)

lemma run_events_filter:
  "target \<noteq> [] \<Longrightarrow>
   run_events (Some target) st evs =
     run_events None st (filter (\<lambda>ev. ev_login ev = target) evs)"
proof (induction evs arbitrary: st)
  case Nil
  show ?case by (simp add: run_events_Nil)
next
  case (Cons ev evs)
  show ?case
  proof (cases "ev_login ev = target")
    case True
    then show ?thesis
      using Cons.IH [OF Cons.prems] by (simp add: run_events_Cons process_event_keep)
  next
    case False
    then show ?thesis
      using Cons.IH [OF Cons.prems] Cons.prems by (simp add: run_events_Cons process_event_skip)
  qed
qed

lemma run_events_filter_idem:
  "run_events (Some target) st (filter (\<lambda>ev. ev_login ev = target) evs) =
     run_events None st (filter (\<lambda>ev. ev_login ev = target) evs)"
  by (induction evs arbitrary: st) (simp_all add: run_events_Nil run_events_Cons process_event_keep)

lemma process_event_table_logins:
  assumes "target \<noteq> []"
    and "\<forall>e \<in> set (start_times st). fst (snd e) = target"
  shows "\<forall>e \<in> set (start_times (process_event (Some target) st ev)). fst (snd e) = target"
proof (cases ev)
  case (fields login action timestamp session_id)
  show ?thesis
  proof (cases "login = target")
    case False
    then show ?thesis
      using assms fields by (simp add: process_event_skip ev_login_def)
  next
    case True
    have u: "\<forall>e \<in> set (AList.update session_id (target, timestamp) (start_times st)).
        fst (snd e) = target"
      using assms(2) set_update_subset [of session_id "(target, timestamp)" "start_times st"]
      by auto
    have d: "\<forall>e \<in> set (AList.delete session_id (start_times st)). fst (snd e) = target"
      using assms(2) set_delete_subset [of session_id "start_times st"] by auto
    show ?thesis
      using True fields u d assms(2)
      by (simp add: process_event_def split: option.splits)
  qed
qed

lemma run_events_table_logins:
  "target \<noteq> [] \<Longrightarrow> \<forall>e \<in> set (start_times st). fst (snd e) = target \<Longrightarrow>
   \<forall>e \<in> set (start_times (run_events (Some target) st evs)). fst (snd e) = target"
proof (induction evs arbitrary: st)
  case Nil
  then show ?case by (simp add: run_events_Nil)
next
  case (Cons ev evs)
  show ?case
    using Cons.IH [OF Cons.prems(1) process_event_table_logins [OF Cons.prems]]
    by (simp add: run_events_Cons)
qed

lemma unterminated_all_target:
  "\<forall>e \<in> set tbl. fst (snd e) = target \<Longrightarrow>
   unterminated (Some target) tbl = unterminated None tbl"
proof -
  assume a: "\<forall>e \<in> set tbl. fst (snd e) = target"
  have "filter (\<lambda>(session_id, (login, start_time)).
           \<not> truthy (Some target) \<or> Some login = Some target) tbl = tbl"
    using a by (auto simp: filter_id_conv)
  moreover have "filter (\<lambda>(session_id, (login, start_time)).
           \<not> truthy None \<or> Some login = None) tbl = tbl"
    by (simp add: truthy_def)
  ultimately show ?thesis
    by (simp add: unterminated_def)
qed

lemma chrono_inv_step:
  assumes "chrono_inv st (e # es)"
  shows "chrono_inv (process_event target_login st e) es
    \<and> get_total (total_time st) login
        \<le> get_total (total_time (process_event target_login st e)) login"
proof (cases e)
  case (fields l action timestamp session_id)
  have tbl: "\<forall>entry \<in> set (start_times st). \<forall>e' \<in> set (e # es).
        ev_action e' = ''Stop'' \<and> ev_session e' = fst entry \<and> ev_login e' = fst (snd entry)
          \<longrightarrow> snd (snd entry) \<le> ev_timestamp e'"
    and later: "stops_not_before_starts es"
    and first: "list_all (\<lambda>e'. ev_action e = ''Start'' \<and> ev_action e' = ''Stop''
                     \<and> ev_session e' = ev_session e \<and> ev_login e' = ev_login e
                   \<longrightarrow> ev_timestamp e \<le> ev_timestamp e') es"
    and nonneg: "\<forall>login. 0 \<le> get_total (total_time st) login
        \<and> is_float (get_total (total_time st) login)"
    using assms by (simp_all add: chrono_inv_def)
  have keep: "chrono_inv st es"
    using tbl later nonneg by (simp add: chrono_inv_def)
  show ?thesis
  proof (cases "filtered_out target_login l")
    case True
    then show ?thesis
      using keep fields by (simp add: process_event_def)
  next
    case pass: False
    show ?thesis
    proof (cases "action = ''Start''")
      case True
      have new: "\<forall>e' \<in> set es.
          ev_action e' = ''Stop'' \<and> ev_session e' = session_id \<and> ev_login e' = l
            \<longrightarrow> timestamp \<le> ev_timestamp e'"
        using first True fields
        by (simp add: list_all_iff ev_action_def ev_session_def ev_login_def ev_timestamp_def)
      have "\<forall>entry \<in> set (AList.update session_id (l, timestamp) (start_times st)).
          \<forall>e' \<in> set es.
            ev_action e' = ''Stop'' \<and> ev_session e' = fst entry \<and> ev_login e' = fst (snd entry)
              \<longrightarrow> snd (snd entry) \<le> ev_timestamp e'"
        using new tbl set_update_subset [of session_id "(l, timestamp)" "start_times st"]
        by fastforce
      then show ?thesis
        using True pass fields later nonneg by (simp add: process_event_def chrono_inv_def)
    next
      case nostart: False
      show ?thesis
      proof (cases "action = ''Stop''")
        case False
        then show ?thesis
          using nostart pass fields keep by (simp add: process_event_def)
      next
        case stop: True
        show ?thesis
        proof (cases "map_of (start_times st) session_id")
          case None
          then show ?thesis
            using stop pass fields keep by (simp add: process_event_def chrono_inv_def)
        next
          case (Some found)
          obtain start_login start_time where found: "found = (start_login, start_time)"
            by (cases found)
          show ?thesis
          proof (cases "start_login = l")
            case False
            then show ?thesis
              using Some found stop pass fields keep by (simp add: process_event_def chrono_inv_def)
          next
            case True
            have "(session_id, (l, start_time)) \<in> set (start_times st)"
              using Some found True by (simp add: map_of_SomeD)
            then have le: "start_time \<le> timestamp"
              using tbl stop fields
              by (fastforce simp: ev_action_def ev_session_def ev_login_def ev_timestamp_def)
            have del: "\<forall>entry \<in> set (AList.delete session_id (start_times st)).
                \<forall>e' \<in> set es.
                  ev_action e' = ''Stop'' \<and> ev_session e' = fst entry
                    \<and> ev_login e' = fst (snd entry)
                  \<longrightarrow> snd (snd entry) \<le> ev_timestamp e'"
              using tbl set_delete_subset [of session_id "start_times st"] by fastforce
            have st': "process_event target_login st e =
                st\<lparr>total_time :=
                     AList.update l
                       (float_add (get_total (total_time st) l) (timestamp - start_time))
                       (total_time st),
                   start_times := AList.delete session_id (start_times st)\<rparr>"
              using Some found True stop pass fields by (simp add: process_event_def)
            have fa: "get_total (total_time st) l
                  \<le> float_add (get_total (total_time st) l) (timestamp - start_time)
                \<and> 0 \<le> float_add (get_total (total_time st) l) (timestamp - start_time)
                \<and> is_float (float_add (get_total (total_time st) l) (timestamp - start_time))"
              using nonneg le by (intro float_add_nonneg) simp_all
            have tot: "\<forall>login. 0 \<le> get_total (total_time (process_event target_login st e)) login
                \<and> is_float (get_total (total_time (process_event target_login st e)) login)"
              using nonneg fa by (simp add: st' get_total_update)
            have mono: "get_total (total_time st) login
                \<le> get_total (total_time (process_event target_login st e)) login"
              using fa by (simp add: st' get_total_update)
            have "chrono_inv (process_event target_login st e) es"
              using del later tot by (simp add: chrono_inv_def st')
            then show ?thesis
              using mono by simp
          qed
        qed
      qed
    qed
  qed
qed

lemma chrono_inv_prefix:
  "chrono_inv st es \<Longrightarrow> chrono_inv (run_events target_login st (take n es)) (drop n es)"
proof (induction es arbitrary: st n)
  case Nil
  then show ?case by (simp add: run_events_Nil)
next
  case (Cons e es)
  show ?case
  proof (cases n)
    case 0
    then show ?thesis using Cons.prems by (simp add: run_events_Nil)
  next
    case (Suc m)
    have "chrono_inv (process_event target_login st e) es"
      using chrono_inv_step [OF Cons.prems] by simp
    then show ?thesis
      using Cons.IH Suc by (simp add: run_events_Cons)
  qed
qed

lemma chrono_inv_init:
  "stops_not_before_starts evs \<Longrightarrow> chrono_inv init_state evs"
  by (simp add: chrono_inv_def init_state_def get_total_def is_float_zero)

lemma chrono_prefix_mono:
  assumes "chrono_inv st es"
  shows "get_total (total_time (run_events target_login st (take n es))) login
      \<le> get_total (total_time (run_events target_login st (take (Suc n) es))) login"
proof (cases "n < length es")
  case False
  then show ?thesis by simp
next
  case True
  have inv: "chrono_inv (run_events target_login st (take n es)) (es ! n # drop (Suc n) es)"
    using chrono_inv_prefix [OF assms, of target_login n] True
    by (simp add: Cons_nth_drop_Suc)
  show ?thesis
    using chrono_inv_step [OF inv, of target_login login] True
    by (simp add: take_Suc_conv_app_nth run_events_snoc)
qed

lemma sum_change_one:
  fixes f g :: "'a \<Rightarrow> int"
  assumes "finite K" and "s \<in> K" and "\<forall>x. x \<noteq> s \<longrightarrow> f x = g x"
  shows "sum f K = sum g K + (f s - g s)"
proof -
  have "sum f (K - {s}) = sum g (K - {s})"
    using assms(3) by (intro sum.cong) auto
  then show ?thesis
    using assms(1,2) by (simp add: sum.remove [of K s])
qed

lemma paired_Cons_start: "paired (e # xs) \<Longrightarrow> ev_action e = ''Start''"
  by (cases xs) simp_all

lemma process_event_unfiltered_start:
  "\<not> truthy target_login \<Longrightarrow>
   process_event target_login st (l, ''Start'', t, s) =
     st\<lparr>start_times := AList.update s (l, t) (start_times st)\<rparr>"
  by (simp add: process_event_def filtered_out_def)

lemma process_event_unfiltered_match:
  "\<not> truthy target_login \<Longrightarrow> map_of (start_times st) s = Some (l, t0) \<Longrightarrow>
   process_event target_login st (l, ''Stop'', t, s) =
     st\<lparr>total_time :=
          AList.update l (float_add (get_total (total_time st) l) (t - t0)) (total_time st),
        start_times := AList.delete s (start_times st)\<rparr>"
  by (simp add: process_event_def filtered_out_def)

lemma pair_magnitude_nonneg: "0 \<le> pair_magnitude login xs"
  by (induction login xs rule: pair_magnitude.induct) simp_all

lemma clean_run:
  assumes "\<not> truthy target_login"
    and "\<forall>s. paired (pending st es s)"
    and "finite K"
    and "fst ` set (start_times st) \<union> ev_session ` set es \<subseteq> K"
  shows "start_times (run_events target_login st es) = []
    \<and> missing_start_logs (run_events target_login st es) = missing_start_logs st
    \<and> (\<bar>get_total (total_time st) login\<bar>
          + (\<Sum>s\<in>K. pair_magnitude login (pending st es s)) \<le> float_limit \<longrightarrow>
        get_total (total_time (run_events target_login st es)) login =
          get_total (total_time st) login + (\<Sum>s\<in>K. pair_seconds login (pending st es s)))"
  using assms(2,4)
proof (induction es arbitrary: st)
  case Nil
  have "map_of (start_times st) s = None" for s
    using Nil.prems(1) [rule_format, of s]
    by (cases "map_of (start_times st) s") (auto simp: pending_def open_start_def session_events_def)
  then have empty: "start_times st = []"
    by (metis map_of_eq_empty_iff)
  have "pending st [] s = []" for s
    using empty by (simp add: pending_def open_start_def session_events_def)
  then show ?case
    using empty by (simp add: run_events_Nil)
next
  case (Cons e es)
  obtain l a t s where e: "e = (l, a, t, s)"
    by (cases e)
  have sK: "s \<in> K"
    using Cons.prems(2) e by (auto simp: ev_session_def)
  have others: "s' \<noteq> s \<Longrightarrow> session_events (e # es) s' = session_events es s'" for s'
    using e by (auto simp: session_events_def ev_session_def)
  have here: "session_events (e # es) s = e # session_events es s"
    using e by (simp add: session_events_def ev_session_def)
  show ?case
  proof (cases "map_of (start_times st) s")
    case None
    have pend: "pending st (e # es) s = e # session_events es s"
      using None here by (simp add: pending_def open_start_def)
    have "paired (e # session_events es s)"
      using Cons.prems(1) [rule_format, of s] pend by simp
    then have a: "a = ''Start''"
      using paired_Cons_start e by (fastforce simp: ev_action_def)
    let ?st = "st\<lparr>start_times := AList.update s (l, t) (start_times st)\<rparr>"
    have step: "process_event target_login st e = ?st"
      using assms(1) e a by (simp add: process_event_unfiltered_start)
    have same: "pending ?st es s' = pending st (e # es) s'" for s'
    proof (cases "s' = s")
      case True
      then show ?thesis
        using pend e a by (simp add: pending_def open_start_def update_conv')
    next
      case False
      then show ?thesis
        using others [of s'] by (simp add: pending_def open_start_def update_conv')
    qed
    have p: "\<forall>s'. paired (pending ?st es s')"
      using Cons.prems(1) same by simp
    have k: "fst ` set (start_times ?st) \<union> ev_session ` set es \<subseteq> K"
      using Cons.prems(2) sK by (auto simp: dom_update)
    show ?thesis
      using Cons.IH [OF p k] step same by (simp add: run_events_Cons)
  next
    case (Some found)
    obtain l0 t0 where found: "found = (l0, t0)"
      by (cases found)
    have pend: "pending st (e # es) s = (l0, ''Start'', t0, s) # e # session_events es s"
      using Some found here by (simp add: pending_def open_start_def)
    have pr: "paired ((l0, ''Start'', t0, s) # e # session_events es s)"
      using Cons.prems(1) [rule_format, of s] pend by simp
    have a: "a = ''Stop''" and l0: "l0 = l" and rest: "paired (session_events es s)"
      using pr e by (simp_all add: ev_action_def ev_login_def)
    let ?st = "st\<lparr>total_time :=
                     AList.update l (float_add (get_total (total_time st) l) (t - t0))
                       (total_time st),
                   start_times := AList.delete s (start_times st)\<rparr>"
    have step: "process_event target_login st e = ?st"
      using assms(1) e a l0 Some found by (simp add: process_event_unfiltered_match)
    have here': "pending ?st es s = session_events es s"
      by (simp add: pending_def open_start_def delete_conv')
    have same: "s' \<noteq> s \<Longrightarrow> pending ?st es s' = pending st (e # es) s'" for s'
      using others [of s'] by (simp add: pending_def open_start_def delete_conv')
    have p: "\<forall>s'. paired (pending ?st es s')"
    proof
      fix s'
      show "paired (pending ?st es s')"
        using Cons.prems(1) [rule_format, of s'] same [of s'] here' rest
        by (cases "s' = s") simp_all
    qed
    have k: "fst ` set (start_times ?st) \<union> ev_session ` set es \<subseteq> K"
      using Cons.prems(2) dom_delete_subset [of s "start_times st"] by auto
    let ?old = "get_total (total_time st) login"
    let ?d = "if l = login then t - t0 else 0"
    have sums: "(\<Sum>x\<in>K. pair_seconds login (pending st (e # es) x)) =
        (\<Sum>x\<in>K. pair_seconds login (pending ?st es x)) + ?d"
    proof -
      have "(\<Sum>x\<in>K. pair_seconds login (pending st (e # es) x)) =
          (\<Sum>x\<in>K. pair_seconds login (pending ?st es x))
          + (pair_seconds login (pending st (e # es) s) - pair_seconds login (pending ?st es s))"
        using assms(3) sK same by (intro sum_change_one) auto
      moreover have "pair_seconds login (pending st (e # es) s) =
          ?d + pair_seconds login (pending ?st es s)"
        unfolding pend here' by (simp add: e ev_login_def ev_timestamp_def)
      ultimately show ?thesis
        by simp
    qed
    have mags: "(\<Sum>x\<in>K. pair_magnitude login (pending st (e # es) x)) =
        (\<Sum>x\<in>K. pair_magnitude login (pending ?st es x)) + \<bar>?d\<bar>"
    proof -
      have "(\<Sum>x\<in>K. pair_magnitude login (pending st (e # es) x)) =
          (\<Sum>x\<in>K. pair_magnitude login (pending ?st es x))
          + (pair_magnitude login (pending st (e # es) s)
             - pair_magnitude login (pending ?st es s))"
        using assms(3) sK same by (intro sum_change_one) auto
      moreover have "pair_magnitude login (pending st (e # es) s) =
          \<bar>?d\<bar> + pair_magnitude login (pending ?st es s)"
        unfolding pend here' by (simp add: e ev_login_def ev_timestamp_def)
      ultimately show ?thesis
        by simp
    qed
    have nn: "0 \<le> (\<Sum>x\<in>K. pair_magnitude login (pending ?st es x))"
      by (intro sum_nonneg pair_magnitude_nonneg)
    have total: "get_total (total_time (run_events target_login ?st es)) login =
        ?old + (\<Sum>x\<in>K. pair_seconds login (pending st (e # es) x))"
      if bound: "\<bar>?old\<bar> + (\<Sum>x\<in>K. pair_magnitude login (pending st (e # es) x))
        \<le> float_limit"
    proof -
      have small: "\<bar>?old + ?d\<bar> \<le> float_limit" and
        room: "\<bar>?old + ?d\<bar> + (\<Sum>x\<in>K. pair_magnitude login (pending ?st es x))
          \<le> float_limit"
        using bound nn unfolding mags by linarith+
      have new: "get_total (total_time ?st) login = ?old + ?d"
      proof (cases "l = login")
        case True
        then have "float_add ?old (t - t0) = ?old + (t - t0)"
          using small by (intro float_add_exact) simp
        then show ?thesis
          using True by (simp add: get_total_update)
      next
        case False
        then show ?thesis
          by (simp add: get_total_update)
      qed
      have "get_total (total_time (run_events target_login ?st es)) login =
          get_total (total_time ?st) login
          + (\<Sum>x\<in>K. pair_seconds login (pending ?st es x))"
        using Cons.IH [OF p k] room unfolding new by blast
      then show ?thesis
        unfolding new sums by simp
    qed
    show ?thesis
      using Cons.IH [OF p k] step total by (simp add: run_events_Cons)
  qed
qed

lemma session_events_absent:
  "s \<notin> ev_session ` set evs \<Longrightarrow> session_events evs s = []"
  by (auto simp: session_events_def filter_empty_conv)

lemma cleanly_matched_iff:
  "cleanly_matched evs \<longleftrightarrow> (\<forall>s. paired (session_events evs s))"
proof
  assume c: "cleanly_matched evs"
  show "\<forall>s. paired (session_events evs s)"
  proof
    fix s
    show "paired (session_events evs s)"
    proof (cases "s \<in> ev_session ` set evs")
      case True
      then show ?thesis
        using c by (auto simp: cleanly_matched_def list_all_iff)
    next
      case False
      then have "session_events evs s = []"
        by (rule session_events_absent)
      then show ?thesis by simp
    qed
  qed
next
  assume "\<forall>s. paired (session_events evs s)"
  then show "cleanly_matched evs"
    by (simp add: cleanly_matched_def list_all_iff)
qed

lemma expected_total_sum:
  "expected_total evs login =
     (\<Sum>s\<in>ev_session ` set evs. pair_seconds login (session_events evs s))"
proof -
  have "sum_list (map (\<lambda>s. pair_seconds login (session_events evs s))
          (remdups (map ev_session evs))) =
        (\<Sum>s\<in>set (remdups (map ev_session evs)). pair_seconds login (session_events evs s))"
    by (rule sum_list_distinct_conv_sum_set) simp
  then show ?thesis
    by (simp add: expected_total_def)
qed

lemma expected_magnitude_sum:
  "expected_magnitude evs login =
     (\<Sum>s\<in>ev_session ` set evs. pair_magnitude login (session_events evs s))"
proof -
  have "sum_list (map (\<lambda>s. pair_magnitude login (session_events evs s))
          (remdups (map ev_session evs))) =
        (\<Sum>s\<in>set (remdups (map ev_session evs)). pair_magnitude login (session_events evs s))"
    by (rule sum_list_distinct_conv_sum_set) simp
  then show ?thesis
    by (simp add: expected_magnitude_def)
qed

lemma aggregate_clean_unfiltered:
  assumes "\<not> truthy target_login" and "cleanly_matched evs"
  shows "snd (aggregate target_login evs) = []
    \<and> (expected_magnitude evs login \<le> float_limit \<longrightarrow>
        get_total (fst (aggregate target_login evs)) login = expected_total evs login)"
proof -
  have pend: "pending init_state evs s = session_events evs s" for s
    by (simp add: pending_def open_start_def init_state_def)
  have p: "\<forall>s. paired (pending init_state evs s)"
    using assms(2) by (simp add: pend cleanly_matched_iff)
  have k: "fst ` set (start_times init_state) \<union> ev_session ` set evs \<subseteq> ev_session ` set evs"
    by (simp add: init_state_def)
  have zero: "get_total (total_time init_state) login = 0"
    by (simp add: init_state_def get_total_def)
  have run: "start_times (run_events target_login init_state evs) = []
    \<and> missing_start_logs (run_events target_login init_state evs) = missing_start_logs init_state
    \<and> (\<bar>get_total (total_time init_state) login\<bar>
          + (\<Sum>s\<in>ev_session ` set evs. pair_magnitude login (pending init_state evs s))
          \<le> float_limit \<longrightarrow>
        get_total (total_time (run_events target_login init_state evs)) login =
          get_total (total_time init_state) login
          + (\<Sum>s\<in>ev_session ` set evs. pair_seconds login (pending init_state evs s)))"
    using assms(1) p _ k by (rule clean_run) simp
  have d: "snd (aggregate target_login evs) = []"
    using run by (simp add: aggregate_def finish_def unterminated_def init_state_def)
  have "get_total (fst (aggregate target_login evs)) login = expected_total evs login"
    if "expected_magnitude evs login \<le> float_limit"
    using run that unfolding pend zero
    by (simp add: aggregate_def finish_def expected_total_sum expected_magnitude_sum)
  then show ?thesis
    using d by simp
qed

lemma paired_filter_login:
  "paired xs \<Longrightarrow> paired (filter (\<lambda>e. ev_login e = target) xs)"
  by (induction xs rule: paired.induct) auto

lemma pair_seconds_filter_login:
  "paired xs \<Longrightarrow> pair_seconds target (filter (\<lambda>e. ev_login e = target) xs) = pair_seconds target xs"
  by (induction xs rule: paired.induct) auto

lemma pair_seconds_other_login:
  "paired xs \<Longrightarrow> login \<noteq> target \<Longrightarrow>
   pair_seconds login (filter (\<lambda>e. ev_login e = target) xs) = 0"
  by (induction xs rule: paired.induct) auto

lemma session_events_filter:
  "session_events (filter P evs) s = filter P (session_events evs s)"
  by (auto simp: session_events_def intro: filter_cong)

lemma cleanly_matched_filter:
  "cleanly_matched evs \<Longrightarrow> cleanly_matched (filter (\<lambda>e. ev_login e = target) evs)"
  by (simp add: cleanly_matched_iff session_events_filter paired_filter_login)

lemma expected_total_filter:
  assumes "cleanly_matched evs"
  shows "expected_total (filter (\<lambda>e. ev_login e = target) evs) login =
     (if login = target then expected_total evs target else 0)"
proof -
  let ?sub = "filter (\<lambda>e. ev_login e = target) evs"
  have p: "paired (session_events evs s)" for s
    using assms by (simp add: cleanly_matched_iff)
  show ?thesis
  proof (cases "login = target")
    case False
    then show ?thesis
      using p by (simp add: expected_total_sum session_events_filter pair_seconds_other_login)
  next
    case True
    have gone: "\<forall>s \<in> ev_session ` set evs - ev_session ` set ?sub.
        pair_seconds target (session_events ?sub s) = 0"
      by (simp add: session_events_absent)
    have "(\<Sum>s\<in>ev_session ` set ?sub. pair_seconds target (session_events ?sub s)) =
        (\<Sum>s\<in>ev_session ` set evs. pair_seconds target (session_events ?sub s))"
      using gone by (intro sum.mono_neutral_left) auto
    also have "\<dots> = (\<Sum>s\<in>ev_session ` set evs. pair_seconds target (session_events evs s))"
      using p by (simp add: session_events_filter pair_seconds_filter_login)
    finally show ?thesis
      using True by (simp add: expected_total_sum)
  qed
qed

lemma pair_magnitude_filter_login:
  "paired xs \<Longrightarrow>
   pair_magnitude login (filter (\<lambda>e. ev_login e = target) xs) =
     (if login = target then pair_magnitude target xs else 0)"
  by (induction xs rule: paired.induct) auto

lemma expected_magnitude_filter:
  assumes "cleanly_matched evs"
  shows "expected_magnitude (filter (\<lambda>e. ev_login e = target) evs) login =
     (if login = target then expected_magnitude evs target else 0)"
proof -
  let ?sub = "filter (\<lambda>e. ev_login e = target) evs"
  have p: "paired (session_events evs s)" for s
    using assms by (simp add: cleanly_matched_iff)
  show ?thesis
  proof (cases "login = target")
    case False
    then show ?thesis
      using p by (simp add: expected_magnitude_sum session_events_filter pair_magnitude_filter_login)
  next
    case True
    have gone: "\<forall>s \<in> ev_session ` set evs - ev_session ` set ?sub.
        pair_magnitude target (session_events ?sub s) = 0"
      by (simp add: session_events_absent)
    have "(\<Sum>s\<in>ev_session ` set ?sub. pair_magnitude target (session_events ?sub s)) =
        (\<Sum>s\<in>ev_session ` set evs. pair_magnitude target (session_events ?sub s))"
      using gone by (intro sum.mono_neutral_left) auto
    also have "\<dots> = (\<Sum>s\<in>ev_session ` set evs. pair_magnitude target (session_events evs s))"
      using p by (simp add: session_events_filter pair_magnitude_filter_login)
    finally show ?thesis
      using True by (simp add: expected_magnitude_sum)
  qed
qed

lemma calculate_work_time_filtered:
  assumes "target \<noteq> []"
  shows "calculate_work_time strptime rows (Some target) =
     aggregate None (filter (\<lambda>ev. ev_login ev = target) (events_of strptime rows))"
proof -
  let ?evs = "events_of strptime rows"
  have "\<forall>e \<in> set (start_times (run_events (Some target) init_state ?evs)). fst (snd e) = target"
    using assms by (rule run_events_table_logins) (simp add: init_state_def)
  then have "finish (Some target) (run_events (Some target) init_state ?evs) =
      finish None (run_events (Some target) init_state ?evs)"
    by (simp add: finish_def unterminated_all_target)
  then show ?thesis
    using run_events_filter [OF assms, of init_state ?evs]
    by (simp add: calculate_work_time_events aggregate_def)
qed

lemma events_of_append:
  "events_of strptime (xs @ ys) = events_of strptime xs @ events_of strptime ys"
  by (simp add: events_of_def List.map_filter_def)

lemma events_of_concat_replicate:
  "events_of strptime (concat (replicate n xs)) = concat (replicate n (events_of strptime xs))"
  by (induction n) (simp_all add: events_of_append, simp add: events_of_def)

lemma run_events_append:
  "run_events target_login st (xs @ ys) =
     run_events target_login (run_events target_login st xs) ys"
  by (simp add: run_events_def)

lemma set_concat_replicate: "set (concat (replicate n xs)) \<subseteq> set xs"
  by (induction n) auto

lemma long_rows_events:
  "events_of strptime_sample long_rows =
     concat (replicate 28545
       [(''alice'', ''Start'', - 63839664000, ''s1''),
        (''alice'', ''Stop'', 251698233599, ''s1'')])
     @ [(''alice'', ''Start'', - 63839664000, ''s1''),
        (''alice'', ''Stop'', 106128113538, ''s1'')]"
proof -
  have a: "events_of strptime_sample
       [[''alice'', ''Start'', ''0001-01-01 00:00:00'', ''s1''],
        [''alice'', ''Stop'', ''9999-12-31 23:59:59'', ''s1'']] =
       [(''alice'', ''Start'', - 63839664000, ''s1''),
        (''alice'', ''Stop'', 251698233599, ''s1'')]"
    by code_simp
  have b: "events_of strptime_sample
       [[''alice'', ''Start'', ''0001-01-01 00:00:00'', ''s1''],
        [''alice'', ''Stop'', ''5387-01-24 15:32:18'', ''s1'']] =
       [(''alice'', ''Start'', - 63839664000, ''s1''),
        (''alice'', ''Stop'', 106128113538, ''s1'')]"
    by code_simp
  show ?thesis
    unfolding long_rows_def events_of_append events_of_concat_replicate a b ..
qed

lemma run_full_sessions:
  "0 \<le> T \<Longrightarrow> T + int n * 315537897599 \<le> float_limit \<Longrightarrow>
   run_events None
     \<lparr>start_times = [], total_time = [(''alice'', T)], missing_start_logs = []\<rparr>
     (concat (replicate n
       [(''alice'', ''Start'', - 63839664000, ''s1''),
        (''alice'', ''Stop'', 251698233599, ''s1'')])) =
   \<lparr>start_times = [], total_time = [(''alice'', T + int n * 315537897599)],
      missing_start_logs = []\<rparr>"
proof (induction n arbitrary: T)
  case 0
  show ?case by (simp add: run_events_Nil)
next
  case (Suc n)
  have more: "0 \<le> int n * 315537897599"
    by simp
  have small: "\<bar>T + 315537897599\<bar> \<le> float_limit"
    using Suc.prems more by (simp add: algebra_simps)
  have fa: "float_add T 315537897599 = T + 315537897599"
    using small by (rule float_add_exact)
  have pair: "run_events None
       \<lparr>start_times = [], total_time = [(''alice'', T)], missing_start_logs = []\<rparr>
       [(''alice'', ''Start'', - 63839664000, ''s1''),
        (''alice'', ''Stop'', 251698233599, ''s1'')] =
     \<lparr>start_times = [], total_time = [(''alice'', T + 315537897599)],
        missing_start_logs = []\<rparr>"
    using fa
    by (simp add: run_events_Cons run_events_Nil process_event_def filtered_out_def truthy_def
        get_total_def)
  have ih: "run_events None
       \<lparr>start_times = [], total_time = [(''alice'', T + 315537897599)],
          missing_start_logs = []\<rparr>
       (concat (replicate n
         [(''alice'', ''Start'', - 63839664000, ''s1''),
          (''alice'', ''Stop'', 251698233599, ''s1'')])) =
     \<lparr>start_times = [],
        total_time = [(''alice'', T + 315537897599 + int n * 315537897599)],
        missing_start_logs = []\<rparr>"
    using Suc.prems by (intro Suc.IH) (simp_all add: algebra_simps)
  have split: "concat (replicate (Suc n)
         [(''alice'', ''Start'', - 63839664000, ''s1''),
          (''alice'', ''Stop'', 251698233599, ''s1'')]) =
       [(''alice'', ''Start'', - 63839664000, ''s1''),
        (''alice'', ''Stop'', 251698233599, ''s1'')]
       @ concat (replicate n
         [(''alice'', ''Start'', - 63839664000, ''s1''),
          (''alice'', ''Stop'', 251698233599, ''s1'')])"
    by simp
  have sum: "T + 315537897599 + int n * 315537897599 = T + int (Suc n) * 315537897599"
    by (simp add: algebra_simps)
  show ?case
    unfolding split run_events_append pair ih sum ..
qed

lemma paired_full_sessions:
  "paired (concat (replicate n
       [(''alice'', ''Start'', - 63839664000, ''s1''),
        (''alice'', ''Stop'', 251698233599, ''s1'')])
     @ [(''alice'', ''Start'', - 63839664000, ''s1''),
        (''alice'', ''Stop'', 106128113538, ''s1'')])"
  by (induction n) (simp_all add: ev_action_def ev_login_def)

lemma pair_seconds_full_sessions:
  "pair_seconds ''alice'' (concat (replicate n
       [(''alice'', ''Start'', - 63839664000, ''s1''),
        (''alice'', ''Stop'', 251698233599, ''s1'')])
     @ [(''alice'', ''Start'', - 63839664000, ''s1''),
        (''alice'', ''Stop'', 106128113538, ''s1'')]) =
   int n * 315537897599 + 169967777538"
  by (induction n) (simp_all add: ev_login_def ev_timestamp_def algebra_simps)

lemma one_session_events:
  assumes "\<forall>e \<in> set evs. ev_session e = s" and "evs \<noteq> []"
  shows "ev_session ` set evs = {s}" and "session_events evs s = evs"
    and "s' \<noteq> s \<Longrightarrow> session_events evs s' = []"
proof -
  show "ev_session ` set evs = {s}"
    using assms by (cases evs) auto
  show "session_events evs s = evs"
    using assms(1) by (simp add: session_events_def filter_id_conv)
  show "s' \<noteq> s \<Longrightarrow> session_events evs s' = []"
    using assms(1) by (auto simp: session_events_def filter_empty_conv)
qed

subsection \<open>The command-line file and the GUI file\<close>

text \<open>
  \<^verbatim>\<open>calculate_work_time\<close> has the same text in both files and differs only through the
  parser it calls. Whenever the function of \<^verbatim>\<open>calculate_work_time.py\<close> returns, it
  returns the value of \<open>calculate_work_time\<close>; and it returns whenever the writes to
  \<^verbatim>\<open>sys.stderr\<close> succeed. So what is proved of \<open>calculate_work_time\<close> and of
  \<open>pass_state\<close> holds of the value returned by either file.
\<close>

lemma parse_log_line_returns:
  "parse_log_line print_stderr strptime line = Inr (parsed, written) \<Longrightarrow>
   parsed = parse_log_line_gui strptime line"
  by (auto simp: parse_log_line_def parse_log_line_gui_def split: sum.splits option.splits)

lemma parse_log_line_stderr_open:
  "\<exists>written. parse_log_line stderr_open strptime line =
     Inr (parse_log_line_gui strptime line, written)"
  by (simp add: parse_log_line_def parse_log_line_gui_def stderr_open_def split: sum.splits)

lemma process_row_cli_returns:
  "process_row_cli print_stderr strptime target_login st row = Inr st' \<Longrightarrow>
   st' = process_row strptime target_login st row"
proof (cases "length row < 4")
  case True
  then show "process_row_cli print_stderr strptime target_login st row = Inr st' \<Longrightarrow>
      st' = process_row strptime target_login st row"
    by (simp add: process_row_cli_def process_row_def)
next
  case False
  assume r: "process_row_cli print_stderr strptime target_login st row = Inr st'"
  show "st' = process_row strptime target_login st row"
  proof (cases "parse_log_line print_stderr strptime (join_with CHR '';'' row)")
    case (Inl x)
    then show ?thesis
      using r False by (simp add: process_row_cli_def)
  next
    case (Inr res)
    obtain parsed written where res: "res = (parsed, written)"
      by (cases res)
    have "parsed = parse_log_line_gui strptime (join_with CHR '';'' row)"
      using Inr res by (intro parse_log_line_returns) simp
    then show ?thesis
      using r False Inr res
      by (auto simp: process_row_cli_def process_row_def split: option.splits)
  qed
qed

lemma process_row_cli_stderr_open:
  "process_row_cli stderr_open strptime target_login st row =
     Inr (process_row strptime target_login st row)"
proof -
  obtain written where
    "parse_log_line stderr_open strptime (join_with CHR '';'' row) =
       Inr (parse_log_line_gui strptime (join_with CHR '';'' row), written)"
    using parse_log_line_stderr_open by blast
  then show ?thesis
    by (simp add: process_row_cli_def process_row_def split: option.splits)
qed

lemma pass_rows_cli_returns:
  "pass_rows_cli print_stderr strptime target_login st rows = Inr st' \<Longrightarrow>
   st' = foldl (process_row strptime target_login) st rows"
proof (induction rows arbitrary: st)
  case Nil
  then show ?case by simp
next
  case (Cons row rows)
  then show ?case
    by (auto split: sum.splits dest: process_row_cli_returns)
qed

lemma pass_rows_cli_stderr_open:
  "pass_rows_cli stderr_open strptime target_login st rows =
     Inr (foldl (process_row strptime target_login) st rows)"
  by (induction rows arbitrary: st) (simp_all add: process_row_cli_stderr_open)

lemma calculate_work_time_cli_returns:
  "calculate_work_time_cli print_stderr strptime rows target_login = Inr result \<Longrightarrow>
   result = calculate_work_time strptime rows target_login"
  by (auto simp: calculate_work_time_cli_def calculate_work_time_def pass_state_def
      split: sum.splits dest: pass_rows_cli_returns)

lemma calculate_work_time_cli_stderr_open:
  "calculate_work_time_cli stderr_open strptime rows target_login =
     Inr (calculate_work_time strptime rows target_login)"
  by (simp add: calculate_work_time_cli_def calculate_work_time_def pass_state_def
      pass_rows_cli_stderr_open)

section \<open>Orphan Stop\<close>

text \<open>
  C6. Processing a Stop event whose session id has no entry in the open-session table
  appends exactly one ``Stop without Start'' diagnostic for its login, timestamp and
  session id, and changes nothing else: the totals and the open-session table stay as
  they were. (An event that the login filter skips does not reach this branch.)
\<close>

theorem orphan_stop_only_appends_diagnostic:
  assumes "map_of (start_times st) session_id = None"
    and "\<not> filtered_out target_login login"
  shows "process_event target_login st (login, ''Stop'', timestamp, session_id) =
           st\<lparr>missing_start_logs :=
                missing_start_logs st @ [StopWithoutStart login timestamp session_id]\<rparr>"
  using assms by (simp add: process_event_def)

theorem orphan_stop_only_appends_diagnostic_witness:
  "map_of (start_times init_state) ''s2'' = None \<and> \<not> filtered_out None ''bob'' \<and>
   process_event None init_state (''bob'', ''Stop'', 36000, ''s2'') =
     \<lparr>start_times = [], total_time = [],
        missing_start_logs = [StopWithoutStart ''bob'' 36000 ''s2'']\<rparr>"
  using orphan_stop_only_appends_diagnostic [of init_state "''s2''" None "''bob''" 36000]
  by (simp add: init_state_def filtered_out_def truthy_def)

section \<open>Stop by another login\<close>

text \<open>
  C5. Processing a Stop event whose session id is open, but under a login other than the
  Stop's, appends exactly one mismatch diagnostic and changes nothing else: the open
  entry and every total stay as they were. The session is still open: a later Stop with
  the opening login matches it and adds its duration, measured from the stored start.
\<close>

theorem mismatched_stop_keeps_session_open:
  assumes "map_of (start_times st) session_id = Some (start_login, start_time)"
    and "start_login \<noteq> login"
    and "\<not> filtered_out target_login login"
  shows "process_event target_login st (login, ''Stop'', timestamp, session_id) =
           st\<lparr>missing_start_logs :=
                missing_start_logs st @ [StopOtherUser login timestamp session_id]\<rparr>
         \<and> (\<not> filtered_out target_login start_login \<longrightarrow>
              process_event target_login
                (process_event target_login st (login, ''Stop'', timestamp, session_id))
                (start_login, ''Stop'', timestamp', session_id) =
              st\<lparr>total_time :=
                   AList.update start_login
                     (float_add (get_total (total_time st) start_login) (timestamp' - start_time))
                     (total_time st),
                 start_times := AList.delete session_id (start_times st),
                 missing_start_logs :=
                   missing_start_logs st @ [StopOtherUser login timestamp session_id]\<rparr>)"
  using assms by (simp add: process_event_def)

theorem mismatched_stop_keeps_session_open_witness:
  "map_of (start_times \<lparr>start_times = [(''s1'', (''alice'', 32400))], total_time = [],
      missing_start_logs = []\<rparr>) ''s1'' = Some (''alice'', 32400)
   \<and> ''alice'' \<noteq> ''bob'' \<and> \<not> filtered_out None ''bob'' \<and> \<not> filtered_out None ''alice''
   \<and> process_event None
        \<lparr>start_times = [(''s1'', (''alice'', 32400))], total_time = [], missing_start_logs = []\<rparr>
        (''bob'', ''Stop'', 36000, ''s1'') =
      \<lparr>start_times = [(''s1'', (''alice'', 32400))], total_time = [],
         missing_start_logs = [StopOtherUser ''bob'' 36000 ''s1'']\<rparr>
   \<and> process_event None
        (process_event None
          \<lparr>start_times = [(''s1'', (''alice'', 32400))], total_time = [], missing_start_logs = []\<rparr>
          (''bob'', ''Stop'', 36000, ''s1''))
        (''alice'', ''Stop'', 61200, ''s1'') =
      \<lparr>start_times = [], total_time = [(''alice'', 28800)],
         missing_start_logs = [StopOtherUser ''bob'' 36000 ''s1'']\<rparr>"
  using mismatched_stop_keeps_session_open
    [of "\<lparr>start_times = [(''s1'', (''alice'', 32400))], total_time = [], missing_start_logs = []\<rparr>"
        "''s1''" "''alice''" 32400 "''bob''" None 36000 61200]
  by (simp add: filtered_out_def truthy_def get_total_def process_event_def
      float_add_exact float_limit_def)

section \<open>Start overwrites\<close>

text \<open>
  C7. A Start event sets the open-session entry of its session id to its own login and
  timestamp, whatever was there, and emits no diagnostic. Consequently, after a Start,
  a second Start of the same session id and then a matching Stop, the state is the one
  reached without the first Start: the duration is measured from the second Start's
  timestamp, and the first Start's login and timestamp occur in no total and no diagnostic.
\<close>

theorem start_overwrites_open_session:
  assumes "\<not> filtered_out target_login login"
  shows "process_event target_login st (login, ''Start'', timestamp, session_id) =
           st\<lparr>start_times := AList.update session_id (login, timestamp) (start_times st)\<rparr>
         \<and> map_of (start_times (process_event target_login st
               (login, ''Start'', timestamp, session_id))) session_id = Some (login, timestamp)
         \<and> run_events target_login st
             [(login1, ''Start'', timestamp1, session_id),
              (login, ''Start'', timestamp, session_id),
              (login, ''Stop'', timestamp3, session_id)] =
           st\<lparr>total_time :=
                AList.update login
                  (float_add (get_total (total_time st) login) (timestamp3 - timestamp))
                  (total_time st),
              start_times := AList.delete session_id (start_times st)\<rparr>"
  using assms
  by (simp add: process_event_def run_events_def update_conv' update_last delete_update_same)

theorem start_overwrites_open_session_witness:
  "\<not> filtered_out None ''alice''
   \<and> process_event None init_state (''alice'', ''Start'', 36000, ''s1'') =
       \<lparr>start_times = [(''s1'', (''alice'', 36000))], total_time = [], missing_start_logs = []\<rparr>
   \<and> run_events None init_state
         [(''bob'', ''Start'', 32400, ''s1''),
          (''alice'', ''Start'', 36000, ''s1''),
          (''alice'', ''Stop'', 61200, ''s1'')] =
       \<lparr>start_times = [], total_time = [(''alice'', 25200)], missing_start_logs = []\<rparr>"
  using start_overwrites_open_session [of None "''alice''" init_state 36000 "''s1''" "''bob''" 32400 61200]
  by (simp add: filtered_out_def truthy_def get_total_def init_state_def
      float_add_exact float_limit_def)

section \<open>Durations are not clamped\<close>



section \<open>The line parser\<close>

text \<open>
  C9, as the code has it. A third field that is not of the shape
  \<^verbatim>\<open>YYYY-MM-DD HH:MM:SS\<close> can still be a timestamp for \<^verbatim>\<open>strptime\<close>: the line
  \<^verbatim>\<open>alice;Start;2024-1-1 9:0:0;s1\<close> gives an event, in both variants of the parser.
\<close>

theorem unpadded_timestamp_gives_event:
  "\<not> matches_date_pattern (line_parts ''alice;Start;2024-1-1 9:0:0;s1'' ! 2)
   \<and> parse_log_line_gui strptime_sample ''alice;Start;2024-1-1 9:0:0;s1'' =
       Some (''alice'', ''Start'', 32400, ''s1'')
   \<and> parse_log_line stderr_open strptime_sample ''alice;Start;2024-1-1 9:0:0;s1'' =
       Inr (Some (''alice'', ''Start'', 32400, ''s1''), [])"
  by code_simp

text \<open>
  C9, amended. A line that splits on the semicolon into fewer than four fields (each
  trimmed of white space and of quote characters) gives no event and no warning, in both
  variants of the parser. A line of at least four fields whose third field
  \<^verbatim>\<open>strptime\<close> rejects for the format \<^verbatim>\<open>%Y-%m-%d %H:%M:%S\<close> gives no event either: the
  parser returns \<^verbatim>\<open>None\<close>, or, in the command-line variant, the write of the warning
  raises. A record without an event, and a row of fewer than four fields, leave the
  state of the aggregator as it was.
\<close>

theorem rejected_lines_produce_no_event:
  "(length (line_parts line) < 4 \<longrightarrow>
      parse_log_line print_stderr strptime line = Inr (None, [])
      \<and> parse_log_line_gui strptime line = None)
   \<and> (4 \<le> length (line_parts line) \<and> strptime (line_parts line ! 2) DATE_FORMAT = Inl e \<longrightarrow>
      parse_log_line_gui strptime line = None
      \<and> parse_log_line print_stderr strptime line =
          (case print_stderr (ParseWarning line e) of
             None \<Rightarrow> Inr (None, [ParseWarning line e])
           | Some x \<Rightarrow> Inl x))
   \<and> (parse_log_line_gui strptime (join_with CHR '';'' row) = None \<longrightarrow>
      process_row strptime target_login st row = st)
   \<and> (length row < 4 \<longrightarrow>
      process_row strptime target_login st row = st
      \<and> process_row_cli print_stderr strptime target_login st row = Inr st)"
  by (simp add: parse_log_line_def parse_log_line_gui_def parse_log_line_try_short
      parse_log_line_try_long process_row_def process_row_cli_def)

theorem rejected_lines_produce_no_event_witness:
  "length (line_parts ''alice;Start;2024-01-01 09:00:00'') < 4
   \<and> parse_log_line stderr_closed strptime_sample ''alice;Start;2024-01-01 09:00:00'' =
       Inr (None, [])
   \<and> parse_log_line_gui strptime_sample ''alice;Start;2024-01-01 09:00:00'' = None
   \<and> 4 \<le> length (line_parts ''alice;Start;yesterday;s1'')
   \<and> strptime_sample (line_parts ''alice;Start;yesterday;s1'' ! 2) DATE_FORMAT = Inl ValueError
   \<and> parse_log_line stderr_open strptime_sample ''alice;Start;yesterday;s1'' =
       Inr (None, [ParseWarning ''alice;Start;yesterday;s1'' ValueError])
   \<and> parse_log_line_gui strptime_sample ''alice;Start;yesterday;s1'' = None
   \<and> parse_log_line_gui strptime_sample
        (join_with CHR '';'' [''alice'', ''Start'', ''yesterday'', ''s1'']) = None
   \<and> process_row strptime_sample None init_state [''alice'', ''Start'', ''yesterday'', ''s1''] =
       init_state
   \<and> length [''alice'', ''Start'', ''2024-01-01 09:00:00''] < 4
   \<and> process_row strptime_sample None init_state [''alice'', ''Start'', ''2024-01-01 09:00:00''] =
       init_state"
proof -
  have a: "length (line_parts ''alice;Start;2024-01-01 09:00:00'') < 4"
    by code_simp
  have b: "4 \<le> length (line_parts ''alice;Start;yesterday;s1'')"
    by code_simp
  have c: "strptime_sample (line_parts ''alice;Start;yesterday;s1'' ! 2) DATE_FORMAT = Inl ValueError"
    by code_simp
  have d: "parse_log_line_gui strptime_sample
        (join_with CHR '';'' [''alice'', ''Start'', ''yesterday'', ''s1'']) = None"
    by code_simp
  have e: "length [''alice'', ''Start'', ''2024-01-01 09:00:00''] < 4"
    by simp
  have f: "stderr_open (ParseWarning ''alice;Start;yesterday;s1'' ValueError) = None"
    by (simp add: stderr_open_def)
  note t1 = rejected_lines_produce_no_event
    [of "''alice;Start;2024-01-01 09:00:00''" stderr_closed strptime_sample ValueError
        "[''alice'', ''Start'', ''2024-01-01 09:00:00'']" None init_state]
  note t2 = rejected_lines_produce_no_event
    [of "''alice;Start;yesterday;s1''" stderr_open strptime_sample ValueError
        "[''alice'', ''Start'', ''yesterday'', ''s1'']" None init_state]
  show ?thesis
    using a b c d e f t1 t2 by simp
qed

text \<open>
  C10, as the code has it. \<^verbatim>\<open>parse_log_line\<close> of \<^verbatim>\<open>calculate_work_time.py\<close> can raise:
  on a line whose timestamp \<^verbatim>\<open>strptime\<close> rejects, the handler prints to
  \<^verbatim>\<open>sys.stderr\<close>, and when that write raises, the exception goes to the caller.
\<close>

theorem parse_log_line_raises_when_stderr_fails:
  "parse_log_line stderr_closed strptime_sample ''alice;Start;yesterday;s1'' = Inl OSError"
  by code_simp

text \<open>
  C10, amended. \<^verbatim>\<open>parse_log_line\<close> of \<^verbatim>\<open>calculate_work_time_gui.py\<close> returns on every
  line and for every behaviour of \<^verbatim>\<open>strptime\<close>, and never raises: with at least four
  fields and a third field that \<^verbatim>\<open>strptime\<close> reads, it returns the tuple of the first,
  second and fourth field and the timestamp read; otherwise \<^verbatim>\<open>None\<close>.
  \<^verbatim>\<open>parse_log_line\<close> of \<^verbatim>\<open>calculate_work_time.py\<close> returns the same value whenever it
  returns, and it raises in one case only: the line has at least four fields,
  \<^verbatim>\<open>strptime\<close> rejects the third, and the write of the warning to \<^verbatim>\<open>sys.stderr\<close> raises.
\<close>

theorem parse_log_line_total:
  "parse_log_line_gui strptime line =
     (if 4 \<le> length (line_parts line) then
        (case strptime (line_parts line ! 2) DATE_FORMAT of
           Inr timestamp \<Rightarrow>
             Some (line_parts line ! 0, line_parts line ! 1, timestamp, line_parts line ! 3)
         | Inl e \<Rightarrow> None)
      else None)
   \<and> parse_log_line print_stderr strptime line =
     (if 4 \<le> length (line_parts line) then
        (case strptime (line_parts line ! 2) DATE_FORMAT of
           Inr timestamp \<Rightarrow>
             Inr (Some (line_parts line ! 0, line_parts line ! 1, timestamp,
                        line_parts line ! 3), [])
         | Inl e \<Rightarrow>
             (case print_stderr (ParseWarning line e) of
                None \<Rightarrow> Inr (None, [ParseWarning line e])
              | Some x \<Rightarrow> Inl x))
      else Inr (None, []))
   \<and> ((\<exists>login action timestamp session_id.
          parse_log_line_gui strptime line = Some (login, action, timestamp, session_id)
          \<and> strptime (line_parts line ! 2) DATE_FORMAT = Inr timestamp)
        \<or> parse_log_line_gui strptime line = None)
   \<and> (\<exists>written. parse_log_line stderr_open strptime line =
          Inr (parse_log_line_gui strptime line, written))"
proof (cases "4 \<le> length (line_parts line)")
  case True
  then show ?thesis
    by (simp add: parse_log_line_gui_def parse_log_line_def parse_log_line_try_long
        stderr_open_def split: sum.splits)
next
  case False
  then show ?thesis
    by (simp add: parse_log_line_gui_def parse_log_line_def parse_log_line_try_short)
qed

theorem parse_log_line_total_witness:
  "parse_log_line_gui strptime_sample [CHR 0x20, CHR 0x22, CHR ''a'', CHR 0x22, CHR 0x20,
       CHR '';'', CHR ''S'', CHR ''t'', CHR ''a'', CHR ''r'', CHR ''t'', CHR '';'',
       CHR ''x'', CHR '';'', CHR ''s'', CHR 0x0A] = None
   \<and> parse_log_line stderr_open strptime_sample [CHR 0x20, CHR 0x22, CHR ''a'', CHR 0x22,
       CHR 0x20, CHR '';'', CHR ''S'', CHR ''t'', CHR ''a'', CHR ''r'', CHR ''t'', CHR '';'',
       CHR ''x'', CHR '';'', CHR ''s'', CHR 0x0A] =
     Inr (None, [ParseWarning [CHR 0x20, CHR 0x22, CHR ''a'', CHR 0x22, CHR 0x20,
       CHR '';'', CHR ''S'', CHR ''t'', CHR ''a'', CHR ''r'', CHR ''t'', CHR '';'',
       CHR ''x'', CHR '';'', CHR ''s'', CHR 0x0A] ValueError])"
proof -
  have a: "4 \<le> length (line_parts [CHR 0x20, CHR 0x22, CHR ''a'', CHR 0x22, CHR 0x20,
       CHR '';'', CHR ''S'', CHR ''t'', CHR ''a'', CHR ''r'', CHR ''t'', CHR '';'',
       CHR ''x'', CHR '';'', CHR ''s'', CHR 0x0A])"
    by code_simp
  have b: "strptime_sample (line_parts [CHR 0x20, CHR 0x22, CHR ''a'', CHR 0x22, CHR 0x20,
       CHR '';'', CHR ''S'', CHR ''t'', CHR ''a'', CHR ''r'', CHR ''t'', CHR '';'',
       CHR ''x'', CHR '';'', CHR ''s'', CHR 0x0A] ! 2) DATE_FORMAT = Inl ValueError"
    by code_simp
  show ?thesis
    using a b parse_log_line_total [of strptime_sample "[CHR 0x20, CHR 0x22, CHR ''a'', CHR 0x22,
       CHR 0x20, CHR '';'', CHR ''S'', CHR ''t'', CHR ''a'', CHR ''r'', CHR ''t'', CHR '';'',
       CHR ''x'', CHR '';'', CHR ''s'', CHR 0x0A]" stderr_open]
    by (simp add: stderr_open_def)
qed

section \<open>Finalization\<close>

text \<open>
  C4. When the pass has ended, every entry of the open-session table that the login
  filter admits occurs exactly once among the returned diagnostics, as the
  ``Start without Stop'' message of its login, start timestamp and session id; and every
  such message in the result comes from an entry of the table. The value returned is the
  pair of the totals and the diagnostics, so the table is not part of it, and every call
  starts from an empty table.
\<close>

theorem unterminated_sessions_reported_once:
  "((session_id, (login, start_time)) \<in> set (start_times (pass_state strptime rows target_login))
      \<and> (\<not> truthy target_login \<or> Some login = target_login) \<longrightarrow>
     count_list (snd (calculate_work_time strptime rows target_login))
       (StartWithoutStop login start_time session_id) = 1)
   \<and> (StartWithoutStop login start_time session_id
         \<in> set (snd (calculate_work_time strptime rows target_login)) \<longrightarrow>
       (session_id, (login, start_time)) \<in> set (start_times (pass_state strptime rows target_login))
       \<and> (\<not> truthy target_login \<or> Some login = target_login))
   \<and> calculate_work_time strptime rows target_login =
       (total_time (pass_state strptime rows target_login),
        missing_start_logs (pass_state strptime rows target_login)
          @ unterminated target_login (start_times (pass_state strptime rows target_login)))
   \<and> start_times init_state = []"
proof -
  let ?st = "pass_state strptime rows target_login"
  let ?d = "StartWithoutStop login start_time session_id"
  have res: "snd (calculate_work_time strptime rows target_login) =
      missing_start_logs ?st @ unterminated target_login (start_times ?st)"
    by (simp add: calculate_work_time_def finish_def)
  have zero: "count_list (missing_start_logs ?st) ?d = 0"
    using pass_state_no_unterminated by (simp add: count_list_0_iff)
  have dist: "distinct (unterminated target_login (start_times ?st))"
    by (rule distinct_unterminated) (rule pass_state_distinct)
  have one: "?d \<in> set (unterminated target_login (start_times ?st)) \<Longrightarrow>
      count_list (unterminated target_login (start_times ?st)) ?d = 1"
    using dist by (rule count_list_distinct_member)
  have a: "(session_id, (login, start_time)) \<in> set (start_times ?st)
      \<and> (\<not> truthy target_login \<or> Some login = target_login) \<longrightarrow>
     count_list (snd (calculate_work_time strptime rows target_login)) ?d = 1"
    using one zero by (simp add: res set_unterminated)
  have b: "?d \<in> set (snd (calculate_work_time strptime rows target_login)) \<longrightarrow>
       (session_id, (login, start_time)) \<in> set (start_times ?st)
       \<and> (\<not> truthy target_login \<or> Some login = target_login)"
    using pass_state_no_unterminated [of login start_time session_id strptime rows target_login]
    by (simp add: res set_unterminated)
  have c: "calculate_work_time strptime rows target_login =
       (total_time ?st, missing_start_logs ?st @ unterminated target_login (start_times ?st))"
    by (simp add: calculate_work_time_def finish_def)
  show ?thesis
    using a b c by (simp add: init_state_def)
qed

theorem unterminated_sessions_reported_once_witness:
  "(''s3'', (''alice'', 32400)) \<in> set (start_times (pass_state strptime_sample
       [[''bob'', ''Stop'', ''2024-01-01 10:00:00'', ''s2''],
        [''alice'', ''Start'', ''2024-01-01 09:00:00'', ''s3'']] (Some ''alice'')))
   \<and> truthy (Some ''alice'')
   \<and> count_list (snd (calculate_work_time strptime_sample
       [[''bob'', ''Stop'', ''2024-01-01 10:00:00'', ''s2''],
        [''alice'', ''Start'', ''2024-01-01 09:00:00'', ''s3'']] (Some ''alice'')))
       (StartWithoutStop ''alice'' 32400 ''s3'') = 1
   \<and> calculate_work_time strptime_sample
       [[''bob'', ''Stop'', ''2024-01-01 10:00:00'', ''s2''],
        [''alice'', ''Start'', ''2024-01-01 09:00:00'', ''s3'']] (Some ''alice'') =
     ([], [StartWithoutStop ''alice'' 32400 ''s3''])"
proof -
  have a: "start_times (pass_state strptime_sample
       [[''bob'', ''Stop'', ''2024-01-01 10:00:00'', ''s2''],
        [''alice'', ''Start'', ''2024-01-01 09:00:00'', ''s3'']] (Some ''alice'')) =
       [(''s3'', (''alice'', 32400))]"
    by code_simp
  have b: "calculate_work_time strptime_sample
       [[''bob'', ''Stop'', ''2024-01-01 10:00:00'', ''s2''],
        [''alice'', ''Start'', ''2024-01-01 09:00:00'', ''s3'']] (Some ''alice'') =
     ([], [StartWithoutStop ''alice'' 32400 ''s3''])"
    by code_simp
  have c: "truthy (Some ''alice'')"
    by (simp add: truthy_def)
  show ?thesis
    using a b c unterminated_sessions_reported_once [of "''s3''" "''alice''" 32400 strptime_sample
       "[[''bob'', ''Stop'', ''2024-01-01 10:00:00'', ''s2''],
        [''alice'', ''Start'', ''2024-01-01 09:00:00'', ''s3'']]" "Some ''alice''"]
    by simp
qed

section \<open>The login filter\<close>

text \<open>
  C8. With a non-empty target login, an event of another login leaves the state as it
  was; after every prefix of the rows, every entry of the open-session table carries the
  target login; and the result equals the aggregation, with or without the filter, of
  the subsequence of the events whose login is the target.
\<close>

theorem login_filter_skips_other_logins:
  assumes "target \<noteq> []"
  shows "(ev_login ev \<noteq> target \<longrightarrow> process_event (Some target) st ev = st)
    \<and> (\<forall>e \<in> set (start_times (pass_state strptime (take n rows) (Some target))).
          fst (snd e) = target)
    \<and> calculate_work_time strptime rows (Some target) =
        aggregate None (filter (\<lambda>ev. ev_login ev = target) (events_of strptime rows))
    \<and> calculate_work_time strptime rows (Some target) =
        aggregate (Some target) (filter (\<lambda>ev. ev_login ev = target) (events_of strptime rows))"
proof -
  let ?evs = "events_of strptime rows"
  let ?sub = "filter (\<lambda>ev. ev_login ev = target) ?evs"
  have skip: "ev_login ev \<noteq> target \<longrightarrow> process_event (Some target) st ev = st"
    using assms by (simp add: process_event_skip)
  have tbl: "\<forall>e \<in> set (start_times (run_events (Some target) init_state evs)).
      fst (snd e) = target" for evs
    using assms by (rule run_events_table_logins) (simp add: init_state_def)
  have pre: "\<forall>e \<in> set (start_times (pass_state strptime (take n rows) (Some target))).
      fst (snd e) = target"
    using tbl by (simp add: pass_state_events)
  have run: "run_events (Some target) init_state ?evs = run_events None init_state ?sub"
    using assms by (rule run_events_filter)
  have fin: "finish (Some target) (run_events (Some target) init_state ?evs) =
      finish None (run_events (Some target) init_state ?evs)"
    using tbl [of ?evs] by (simp add: finish_def unterminated_all_target)
  have eq1: "calculate_work_time strptime rows (Some target) = aggregate None ?sub"
    using fin run by (simp add: calculate_work_time_events aggregate_def)
  have eq2: "calculate_work_time strptime rows (Some target) = aggregate (Some target) ?sub"
    using fin run by (simp add: calculate_work_time_events aggregate_def run_events_filter_idem)
  show ?thesis
    using skip pre eq1 eq2 by blast
qed

theorem login_filter_skips_other_logins_witness:
  "''alice'' \<noteq> [] \<and> ev_login (''bob'', ''Start'', 32400, ''s1'') \<noteq> ''alice''
   \<and> process_event (Some ''alice'') init_state (''bob'', ''Start'', 32400, ''s1'') = init_state
   \<and> filter (\<lambda>ev. ev_login ev = ''alice'') (events_of strptime_sample
         [[''bob'', ''Start'', ''2024-01-01 09:00:00'', ''s1''],
          [''alice'', ''Stop'', ''2024-01-01 10:00:00'', ''s1'']]) =
       [(''alice'', ''Stop'', 36000, ''s1'')]
   \<and> calculate_work_time strptime_sample
         [[''bob'', ''Start'', ''2024-01-01 09:00:00'', ''s1''],
          [''alice'', ''Stop'', ''2024-01-01 10:00:00'', ''s1'']] (Some ''alice'') =
       aggregate None [(''alice'', ''Stop'', 36000, ''s1'')]
   \<and> aggregate None [(''alice'', ''Stop'', 36000, ''s1'')] =
       ([], [StopWithoutStart ''alice'' 36000 ''s1''])"
proof -
  have a: "''alice'' \<noteq> []"
    by simp
  have b: "ev_login (''bob'', ''Start'', 32400, ''s1'') \<noteq> ''alice''"
    by (simp add: ev_login_def)
  have c: "filter (\<lambda>ev. ev_login ev = ''alice'') (events_of strptime_sample
         [[''bob'', ''Start'', ''2024-01-01 09:00:00'', ''s1''],
          [''alice'', ''Stop'', ''2024-01-01 10:00:00'', ''s1'']]) =
       [(''alice'', ''Stop'', 36000, ''s1'')]"
    by code_simp
  have d: "aggregate None [(''alice'', ''Stop'', 36000, ''s1'')] =
       ([], [StopWithoutStart ''alice'' 36000 ''s1''])"
    by code_simp
  show ?thesis
    using b c d login_filter_skips_other_logins [OF a,
      of "(''bob'', ''Start'', 32400, ''s1'')" init_state strptime_sample 1
         "[[''bob'', ''Start'', ''2024-01-01 09:00:00'', ''s1''],
          [''alice'', ''Stop'', ''2024-01-01 10:00:00'', ''s1'']]"]
    by simp
qed

section \<open>Sign and growth of the totals\<close>

text \<open>
  C2, as the code has it. The totals are not non-negative and not non-decreasing in
  general: a Start at 17:00 followed by its Stop at 09:00 of the same day takes the
  login's total from 0 to \<open>- 28800\<close>.
\<close>

theorem totals_can_be_negative_and_decrease:
  "get_total (fst (calculate_work_time strptime_sample
       [[''alice'', ''Start'', ''2024-01-01 17:00:00'', ''s1''],
        [''alice'', ''Stop'', ''2024-01-01 09:00:00'', ''s1'']] None)) ''alice'' < 0
   \<and> get_total (total_time (pass_state strptime_sample
       [[''alice'', ''Start'', ''2024-01-01 17:00:00'', ''s1''],
        [''alice'', ''Stop'', ''2024-01-01 09:00:00'', ''s1'']] None)) ''alice''
     < get_total (total_time (pass_state strptime_sample
       [[''alice'', ''Start'', ''2024-01-01 17:00:00'', ''s1'']] None)) ''alice''"
  by code_simp

text \<open>
  C2, amended. When no Stop of the input is stamped before a preceding Start of the same
  session id and login, every login's total is at least 0 after every event, no event
  decreases any login's total, and the returned totals are at least 0.
\<close>

theorem totals_nonnegative_when_stops_follow_starts:
  assumes "stops_not_before_starts (events_of strptime rows)"
  shows "0 \<le> get_total (total_time
            (run_events target_login init_state (take n (events_of strptime rows)))) login
    \<and> get_total (total_time
          (run_events target_login init_state (take n (events_of strptime rows)))) login
        \<le> get_total (total_time
          (run_events target_login init_state (take (Suc n) (events_of strptime rows)))) login
    \<and> 0 \<le> get_total (fst (calculate_work_time strptime rows target_login)) login"
proof -
  let ?evs = "events_of strptime rows"
  have init: "chrono_inv init_state ?evs"
    using assms by (rule chrono_inv_init)
  have pre: "chrono_inv (run_events target_login init_state (take n ?evs)) (drop n ?evs)" for n
    using init by (rule chrono_inv_prefix)
  have a: "0 \<le> get_total (total_time (run_events target_login init_state (take n ?evs))) login"
    using pre [of n] by (simp add: chrono_inv_def)
  have b: "get_total (total_time (run_events target_login init_state (take n ?evs))) login
      \<le> get_total (total_time (run_events target_login init_state (take (Suc n) ?evs))) login"
    using init by (rule chrono_prefix_mono)
  have c: "0 \<le> get_total (fst (calculate_work_time strptime rows target_login)) login"
    using pre [of "length ?evs"]
    by (simp add: chrono_inv_def calculate_work_time_events aggregate_def finish_def)
  show ?thesis
    using a b c by simp
qed

theorem totals_nonnegative_when_stops_follow_starts_witness:
  "stops_not_before_starts (events_of strptime_sample
       [[''alice'', ''Start'', ''2024-01-01 09:00:00'', ''s1''],
        [''alice'', ''Stop'', ''2024-01-01 17:00:00'', ''s1'']])
   \<and> (0::int) \<le> 0 \<and> (0::int) \<le> 28800
   \<and> get_total (total_time (run_events None init_state (take 1 (events_of strptime_sample
       [[''alice'', ''Start'', ''2024-01-01 09:00:00'', ''s1''],
        [''alice'', ''Stop'', ''2024-01-01 17:00:00'', ''s1'']])))) ''alice'' = 0
   \<and> get_total (total_time (run_events None init_state (take (Suc 1) (events_of strptime_sample
       [[''alice'', ''Start'', ''2024-01-01 09:00:00'', ''s1''],
        [''alice'', ''Stop'', ''2024-01-01 17:00:00'', ''s1'']])))) ''alice'' = 28800
   \<and> get_total (fst (calculate_work_time strptime_sample
       [[''alice'', ''Start'', ''2024-01-01 09:00:00'', ''s1''],
        [''alice'', ''Stop'', ''2024-01-01 17:00:00'', ''s1'']] None)) ''alice'' = 28800"
proof -
  have h: "stops_not_before_starts (events_of strptime_sample
       [[''alice'', ''Start'', ''2024-01-01 09:00:00'', ''s1''],
        [''alice'', ''Stop'', ''2024-01-01 17:00:00'', ''s1'']])"
    by code_simp
  have a: "get_total (total_time (run_events None init_state (take 1 (events_of strptime_sample
       [[''alice'', ''Start'', ''2024-01-01 09:00:00'', ''s1''],
        [''alice'', ''Stop'', ''2024-01-01 17:00:00'', ''s1'']])))) ''alice'' = 0"
    by code_simp
  have b: "get_total (total_time (run_events None init_state (take (Suc 1) (events_of strptime_sample
       [[''alice'', ''Start'', ''2024-01-01 09:00:00'', ''s1''],
        [''alice'', ''Stop'', ''2024-01-01 17:00:00'', ''s1'']])))) ''alice'' = 28800"
    by code_simp
  have c: "get_total (fst (calculate_work_time strptime_sample
       [[''alice'', ''Start'', ''2024-01-01 09:00:00'', ''s1''],
        [''alice'', ''Stop'', ''2024-01-01 17:00:00'', ''s1'']] None)) ''alice'' = 28800"
    by code_simp
  show ?thesis
    using h a b c totals_nonnegative_when_stops_follow_starts [OF h, of None 1 "''alice''"]
    by simp
qed

section \<open>Cleanly matched input\<close>

text \<open>
  C1, as the code has it. The returned total is not always the sum of the pair
  differences: the totals are floats. On the long cleanly matched input above the sum of
  \<open>stop - start\<close> is \<open>2 ^ 53 + 1 = 9007199254740993\<close> seconds, the last addition rounds,
  and the returned total is \<open>9007199254740992\<close>.
\<close>

theorem long_clean_input_total_is_rounded:
  "cleanly_matched (events_of strptime_sample long_rows)
   \<and> expected_total (events_of strptime_sample long_rows) ''alice'' = 9007199254740993
   \<and> calculate_work_time strptime_sample long_rows None = ([(''alice'', 9007199254740992)], [])"
proof -
  let ?full = "[(''alice'', ''Start'', - 63839664000, ''s1''),
        (''alice'', ''Stop'', 251698233599, ''s1'')]"
  let ?last = "[(''alice'', ''Start'', - 63839664000, ''s1''),
        (''alice'', ''Stop'', 106128113538, ''s1'')]"
  let ?evs = "concat (replicate 28545 ?full) @ ?last"
  have evs: "events_of strptime_sample long_rows = ?evs"
    by (rule long_rows_events)
  have sess: "\<forall>e \<in> set ?evs. ev_session e = ''s1''"
    using set_concat_replicate [of 28545 ?full] by (auto simp: ev_session_def)
  have ne: "?evs \<noteq> []"
    by simp
  note one = one_session_events [OF sess ne]
  have paired_all: "paired (session_events ?evs s)" for s
    using one(2) one(3) [of s] paired_full_sessions [of 28545] by (cases "s = ''s1''") simp_all
  have clean: "cleanly_matched ?evs"
    using paired_all by (simp add: cleanly_matched_iff)
  have total: "expected_total ?evs ''alice'' = 9007199254740993"
    unfolding expected_total_sum one(1) using one(2) pair_seconds_full_sessions [of 28545]
    by simp
  have first: "run_events None init_state ?full =
      \<lparr>start_times = [], total_time = [(''alice'', 315537897599)], missing_start_logs = []\<rparr>"
    by code_simp
  have count: "concat (replicate 28545 ?full) = ?full @ concat (replicate 28544 ?full)"
  proof -
    have "(28545::nat) = Suc 28544"
      by simp
    then show ?thesis
      by (simp only: replicate_Suc concat.simps)
  qed
  have middle: "run_events None
      \<lparr>start_times = [], total_time = [(''alice'', 315537897599)], missing_start_logs = []\<rparr>
      (concat (replicate 28544 ?full)) =
      \<lparr>start_times = [], total_time = [(''alice'', 9007029286963455)],
         missing_start_logs = []\<rparr>"
    using run_full_sessions [of 315537897599 28544] by (simp add: float_limit_def)
  have final: "run_events None
      \<lparr>start_times = [], total_time = [(''alice'', 9007029286963455)],
         missing_start_logs = []\<rparr> ?last =
      \<lparr>start_times = [], total_time = [(''alice'', 9007199254740992)],
         missing_start_logs = []\<rparr>"
    by code_simp
  have run: "run_events None init_state ?evs =
      \<lparr>start_times = [], total_time = [(''alice'', 9007199254740992)],
         missing_start_logs = []\<rparr>"
    unfolding count run_events_append first middle final ..
  have result: "calculate_work_time strptime_sample long_rows None =
      ([(''alice'', 9007199254740992)], [])"
    unfolding calculate_work_time_events aggregate_def evs run
    by (simp add: finish_def unterminated_def)
  show ?thesis
    using clean total result unfolding evs by simp
qed

text \<open>
  C1, amended. When the events of the input are cleanly matched Start/Stop pairs (for
  each session id a Start and then a Stop of the same login, again and again), the
  returned diagnostics are empty; and the returned total of a login is the sum of
  \<open>stop - start\<close> over the pairs of that login, provided the absolute values of these
  differences sum up to at most \<open>2 ^ 53\<close> seconds, the range in which the float additions
  of the totals are exact. This is the call without a login filter; with a filter the
  same holds for the target login, and a login that the filter excludes has no total
  (read as 0).
\<close>

theorem clean_input_totals_are_pair_sums:
  assumes "cleanly_matched (events_of strptime rows)"
  shows "snd (calculate_work_time strptime rows target_login) = []
    \<and> (expected_magnitude (events_of strptime rows) login \<le> float_limit \<longrightarrow>
        get_total (fst (calculate_work_time strptime rows target_login)) login =
          (if filtered_out target_login login then 0
           else expected_total (events_of strptime rows) login))"
proof (cases "truthy target_login")
  case False
  then show ?thesis
    using aggregate_clean_unfiltered [OF False assms, of login]
    by (simp add: calculate_work_time_events filtered_out_def)
next
  case True
  then obtain target where t: "target_login = Some target" and ne: "target \<noteq> []"
    by (auto simp: truthy_def split: option.splits)
  let ?sub = "filter (\<lambda>ev. ev_login ev = target) (events_of strptime rows)"
  have n: "\<not> truthy None"
    by (simp add: truthy_def)
  have c: "cleanly_matched ?sub"
    using assms by (rule cleanly_matched_filter)
  have pos: "0 \<le> float_limit"
    using float_limit_pos by simp
  show ?thesis
    using aggregate_clean_unfiltered [OF n c, of login]
      expected_total_filter [OF assms, of target login]
      expected_magnitude_filter [OF assms, of target login] True pos
    by (auto simp: t calculate_work_time_filtered [OF ne] filtered_out_def)
qed

theorem clean_input_totals_are_pair_sums_witness:
  "cleanly_matched (events_of strptime_sample
       [[''alice'', ''Start'', ''2024-01-01 09:00:00'', ''s1''],
        [''bob'', ''Start'', ''2024-01-01 09:00:00'', ''s2''],
        [''bob'', ''Stop'', ''2024-01-01 10:00:00'', ''s2''],
        [''alice'', ''Stop'', ''2024-01-01 17:00:00'', ''s1'']])
   \<and> expected_magnitude (events_of strptime_sample
       [[''alice'', ''Start'', ''2024-01-01 09:00:00'', ''s1''],
        [''bob'', ''Start'', ''2024-01-01 09:00:00'', ''s2''],
        [''bob'', ''Stop'', ''2024-01-01 10:00:00'', ''s2''],
        [''alice'', ''Stop'', ''2024-01-01 17:00:00'', ''s1'']]) ''alice'' \<le> float_limit
   \<and> calculate_work_time strptime_sample
       [[''alice'', ''Start'', ''2024-01-01 09:00:00'', ''s1''],
        [''bob'', ''Start'', ''2024-01-01 09:00:00'', ''s2''],
        [''bob'', ''Stop'', ''2024-01-01 10:00:00'', ''s2''],
        [''alice'', ''Stop'', ''2024-01-01 17:00:00'', ''s1'']] None =
     ([(''bob'', 3600), (''alice'', 28800)], [])
   \<and> \<not> filtered_out None ''alice''
   \<and> expected_total (events_of strptime_sample
       [[''alice'', ''Start'', ''2024-01-01 09:00:00'', ''s1''],
        [''bob'', ''Start'', ''2024-01-01 09:00:00'', ''s2''],
        [''bob'', ''Stop'', ''2024-01-01 10:00:00'', ''s2''],
        [''alice'', ''Stop'', ''2024-01-01 17:00:00'', ''s1'']]) ''alice'' = 28800
   \<and> get_total (fst (calculate_work_time strptime_sample
       [[''alice'', ''Start'', ''2024-01-01 09:00:00'', ''s1''],
        [''bob'', ''Start'', ''2024-01-01 09:00:00'', ''s2''],
        [''bob'', ''Stop'', ''2024-01-01 10:00:00'', ''s2''],
        [''alice'', ''Stop'', ''2024-01-01 17:00:00'', ''s1'']] None)) ''alice'' = 28800"
proof -
  have h: "cleanly_matched (events_of strptime_sample
       [[''alice'', ''Start'', ''2024-01-01 09:00:00'', ''s1''],
        [''bob'', ''Start'', ''2024-01-01 09:00:00'', ''s2''],
        [''bob'', ''Stop'', ''2024-01-01 10:00:00'', ''s2''],
        [''alice'', ''Stop'', ''2024-01-01 17:00:00'', ''s1'']])"
    by code_simp
  have m: "expected_magnitude (events_of strptime_sample
       [[''alice'', ''Start'', ''2024-01-01 09:00:00'', ''s1''],
        [''bob'', ''Start'', ''2024-01-01 09:00:00'', ''s2''],
        [''bob'', ''Stop'', ''2024-01-01 10:00:00'', ''s2''],
        [''alice'', ''Stop'', ''2024-01-01 17:00:00'', ''s1'']]) ''alice'' \<le> float_limit"
    by code_simp
  have a: "calculate_work_time strptime_sample
       [[''alice'', ''Start'', ''2024-01-01 09:00:00'', ''s1''],
        [''bob'', ''Start'', ''2024-01-01 09:00:00'', ''s2''],
        [''bob'', ''Stop'', ''2024-01-01 10:00:00'', ''s2''],
        [''alice'', ''Stop'', ''2024-01-01 17:00:00'', ''s1'']] None =
     ([(''bob'', 3600), (''alice'', 28800)], [])"
    by code_simp
  have b: "expected_total (events_of strptime_sample
       [[''alice'', ''Start'', ''2024-01-01 09:00:00'', ''s1''],
        [''bob'', ''Start'', ''2024-01-01 09:00:00'', ''s2''],
        [''bob'', ''Stop'', ''2024-01-01 10:00:00'', ''s2''],
        [''alice'', ''Stop'', ''2024-01-01 17:00:00'', ''s1'']]) ''alice'' = 28800"
    by code_simp
  have c: "\<not> filtered_out None ''alice''"
    by (simp add: filtered_out_def truthy_def)
  show ?thesis
    using h m a b c clean_input_totals_are_pair_sums [OF h, of None "''alice''"]
    by simp
qed

end
